theory Spec2Isabelle
  imports Complex_Main "HOL-Library.Sublist" "HOL-Library.Multiset"
begin

text \<open>
  A model of the conversational assistant of the ferry map application: the keyword
  extractor, the data scoper, the query classifier, the proximity ranking, the markdown
  parser and the handling of the generation service's response. There are two chat
  components in the repository, a baseline one and a location-aware one; where they share
  a function that differs in a constant only, the constant is a parameter of one
  definition (suffix \<open>_with\<close>) and each component has its instance (the location-aware
  one with the suffix \<open>_loc\<close>).
\<close>

section \<open>Text\<close>

text \<open>
  The chat component works on JavaScript strings. They are modelled as \<^typ>\<open>string\<close>,
  read as ASCII text: a character is identified by its code, case conversion acts on the
  letters A-Z and a-z, and the white space of the regular expression class \<^verbatim>\<open>\s\<close> is
  tab, line feed, vertical tab, form feed, carriage return and space. Characters with a
  code of 128 and above stand for no JavaScript code unit in particular (the model leaves
  them unchanged by case conversion and counts them neither as white space nor as
  alphanumeric), so the development speaks about ASCII text. \<open>toLowerChar\<close> and
  \<open>toUpperChar\<close> are \<^verbatim>\<open>toLowerCase\<close> and \<^verbatim>\<open>toUpperCase\<close> on one character.
\<close>

definition code :: "char \<Rightarrow> nat" where
  "code c = of_char c"

definition isUpper :: "char \<Rightarrow> bool" where
  "isUpper c = (65 \<le> code c \<and> code c \<le> 90)"

definition isLower :: "char \<Rightarrow> bool" where
  "isLower c = (97 \<le> code c \<and> code c \<le> 122)"

definition isDigit :: "char \<Rightarrow> bool" where
  "isDigit c = (48 \<le> code c \<and> code c \<le> 57)"

definition isSpace :: "char \<Rightarrow> bool" where
  "isSpace c = (code c = 32 \<or> (9 \<le> code c \<and> code c \<le> 13))"

definition toLowerChar :: "char \<Rightarrow> char" where
  "toLowerChar c = (if isUpper c then char_of (code c + 32) else c)"

definition toUpperChar :: "char \<Rightarrow> char" where
  "toUpperChar c = (if isLower c then char_of (code c - 32) else c)"

definition toLowerCase :: "string \<Rightarrow> string" where
  "toLowerCase s = map toLowerChar s"

text \<open>
  \<^verbatim>\<open>s.split(/\s+/)\<close>: the pieces between maximal runs of white space. A string that
  starts (ends) with white space yields an empty first (last) piece, and the empty string
  yields one empty piece. \<open>split_from sep cur s\<close> scans \<open>s\<close> with the piece \<open>cur\<close> read
  so far; \<open>sep\<close> tells that the scan is inside a run of white space.
\<close>

fun split_from :: "bool \<Rightarrow> string \<Rightarrow> string \<Rightarrow> string list" where
  "split_from sep cur [] = [cur]"
| "split_from sep cur (c # cs) =
     (if isSpace c then (if sep then split_from True cur cs else cur # split_from True [] cs)
      else split_from False (cur @ [c]) cs)"

definition split_ws :: "string \<Rightarrow> string list" where
  "split_ws s = split_from False [] s"

text \<open>\<^verbatim>\<open>s.trim()\<close>, \<^verbatim>\<open>s.includes(t)\<close> and \<^verbatim>\<open>words.join(sep)\<close>.\<close>

definition trim :: "string \<Rightarrow> string" where
  "trim s = rev (dropWhile isSpace (rev (dropWhile isSpace s)))"

fun includes_str :: "string \<Rightarrow> string \<Rightarrow> bool" where
  "includes_str [] t = (t = [])"
| "includes_str (c # cs) t = (prefix t (c # cs) \<or> includes_str cs t)"

fun join :: "string \<Rightarrow> string list \<Rightarrow> string" where
  "join sep [] = []"
| "join sep [w] = w"
| "join sep (w # v # ws) = w @ sep @ join sep (v # ws)"

text \<open>
  \<^verbatim>\<open>parseInt(s)\<close> without a radix: leading white space is skipped, a sign is read, the
  prefix \<^verbatim>\<open>0x\<close> or \<^verbatim>\<open>0X\<close> selects radix 16, and the longest run of digits of the radix
  is the value. \<open>None\<close> is \<^verbatim>\<open>NaN\<close>: there is no digit to read. The value is an
  unbounded integer here; its rounding to a double plays no role in what follows.
\<close>

definition digitValue :: "char \<Rightarrow> nat option" where
  "digitValue c =
     (if isDigit c then Some (code c - 48)
      else if isLower c then Some (code c - 87)
      else if isUpper c then Some (code c - 55)
      else None)"

definition isRadixDigit :: "nat \<Rightarrow> char \<Rightarrow> bool" where
  "isRadixDigit radix c = (case digitValue c of None \<Rightarrow> False | Some v \<Rightarrow> v < radix)"

definition digitsValue :: "nat \<Rightarrow> string \<Rightarrow> int" where
  "digitsValue radix ds =
     foldl (\<lambda>acc c. acc * int radix + (case digitValue c of None \<Rightarrow> 0 | Some v \<Rightarrow> int v)) 0 ds"

definition parseInt :: "string \<Rightarrow> int option" where
  "parseInt s =
     (let s1 = dropWhile isSpace s;
          sign = (case s1 of c # _ \<Rightarrow> if c = CHR ''-'' then - 1 else 1 | [] \<Rightarrow> 1);
          s2 = (case s1 of c # r \<Rightarrow> if c = CHR ''-'' \<or> c = CHR ''+'' then r else s1 | [] \<Rightarrow> s1);
          hex = (case s2 of a # b # _ \<Rightarrow> a = CHR ''0'' \<and> (b = CHR ''x'' \<or> b = CHR ''X'') | _ \<Rightarrow> False);
          radix = (if hex then 16 else 10);
          s3 = (if hex then drop 2 s2 else s2);
          ds = takeWhile (isRadixDigit radix) s3
      in if ds = [] then None else Some (sign * digitsValue radix ds))"

definition isNaN :: "int option \<Rightarrow> bool" where
  "isNaN x = (x = None)"

section \<open>Keyword extractor\<close>

text \<open>
  \<^verbatim>\<open>Array.from(new Set(xs))\<close>: the elements of \<open>xs\<close> in the order of their first
  occurrence. \<open>set_add_all seen xs\<close> adds the elements of \<open>xs\<close> one by one to the set
  whose insertion order is \<open>seen\<close>.
\<close>

fun set_add_all :: "'a list \<Rightarrow> 'a list \<Rightarrow> 'a list" where
  "set_add_all seen [] = seen"
| "set_add_all seen (x # xs) = set_add_all (if x \<in> set seen then seen else seen @ [x]) xs"

definition from_Set :: "'a list \<Rightarrow> 'a list" where
  "from_Set xs = set_add_all [] xs"

text \<open>The vocabulary \<^verbatim>\<open>specificTerms\<close> of the baseline component, and of the location-aware one.\<close>

definition specificTerms :: "string list" where
  "specificTerms =
     [''ikorodu'', ''apapa'', ''badagry'', ''cms'', ''falomo'', ''lagos island'',
      ''lekki'', ''victoria island'', ''eti-osa'', ''fare'', ''schedule'', ''route'',
      ''jetty'', ''departure'', ''hour'', ''time'', ''ebute'', ''ero'', ''ibb'']"

definition specificTerms_loc :: "string list" where
  "specificTerms_loc = specificTerms @ [''nearest'', ''near'', ''close'', ''closest'']"

text \<open>
  \<open>words_of\<close> is the constant \<^verbatim>\<open>words\<close> of \<^verbatim>\<open>getKeywords\<close>, \<open>foundKeywords\<close> the
  filter that decides which of them are kept, and \<open>capitalized\<close> the second pass over the
  text in its original case, whose test
  \<^verbatim>\<open>word.length > 1 && word[0] === word[0].toUpperCase()\<close> is \<open>capital\<close>. The two
  components differ in the vocabulary only, which is the parameter \<open>terms\<close>.
\<close>

definition strip :: "string \<Rightarrow> string" where
  "strip word = filter (\<lambda>c. isLower c \<or> isDigit c) word"

definition words_of :: "string \<Rightarrow> string list" where
  "words_of text = filter (\<lambda>word. length word > 2) (map strip (split_ws (toLowerCase text)))"

definition foundKeywords :: "string list \<Rightarrow> string \<Rightarrow> string list" where
  "foundKeywords terms text =
     filter (\<lambda>word. word \<in> set terms \<or> isNaN (parseInt word)) (words_of text)"

definition capital :: "string \<Rightarrow> bool" where
  "capital word = (length word > 1 \<and> (case word of c # _ \<Rightarrow> c = toUpperChar c | [] \<Rightarrow> False))"

definition capitalized :: "string \<Rightarrow> string list" where
  "capitalized text = map toLowerCase (filter capital (split_ws text))"

definition getKeywords_with :: "string list \<Rightarrow> string \<Rightarrow> string list" where
  "getKeywords_with terms text = take 10 (from_Set (foundKeywords terms text @ capitalized text))"

definition getKeywords :: "string \<Rightarrow> string list" where
  "getKeywords text = getKeywords_with specificTerms text"

definition getKeywords_loc :: "string \<Rightarrow> string list" where
  "getKeywords_loc text = getKeywords_with specificTerms_loc text"

text \<open>
  What the retention rule amounts to on a token over a-z and 0-9: \<open>leading_integer\<close> says
  that the token starts with an integer literal as \<^verbatim>\<open>parseInt\<close> reads one, and
  \<open>purely_numeric\<close> that it consists of decimal digits only.
\<close>

definition isHexDigit :: "char \<Rightarrow> bool" where
  "isHexDigit c = (isDigit c \<or> (97 \<le> code c \<and> code c \<le> 102) \<or> (65 \<le> code c \<and> code c \<le> 70))"

definition leading_integer :: "string \<Rightarrow> bool" where
  "leading_integer w =
     (if prefix ''0x'' w then (case drop 2 w of [] \<Rightarrow> False | d # _ \<Rightarrow> isHexDigit d)
      else (case w of [] \<Rightarrow> False | a # _ \<Rightarrow> isDigit a))"

definition purely_numeric :: "string \<Rightarrow> bool" where
  "purely_numeric w = (w \<noteq> [] \<and> list_all isDigit w)"

text \<open>The form of every extracted keyword: not empty, free of white space, in lower case.\<close>

definition keyword_shape :: "string \<Rightarrow> bool" where
  "keyword_shape k = (k \<noteq> [] \<and> (\<forall>c\<in>set k. \<not> isSpace c) \<and> toLowerCase k = k)"

section \<open>Dataset\<close>

text \<open>
  The two feature collections as their type declarations describe them: a feature has a
  type, properties and a geometry. The properties are kept as the list of the fields of
  the JSON object, since the scoper looks at all of their values whatever their names; a
  coordinate is the triple (longitude, latitude, altitude). Numbers are read as real
  numbers: the model does no arithmetic on them.
\<close>

datatype json =
    JNull
  | JBool bool
  | JNumber real
  | JString string
  | JArray "json list"
  | JObject "(string \<times> json) list"

type_synonym Coordinate = "real \<times> real \<times> real"

record jetty_geometry =
  gtype :: string
  coordinates :: Coordinate

record JettyFeature =
  ftype :: string
  properties :: "(string \<times> json) list"
  geometry :: jetty_geometry

record route_geometry =
  rgtype :: string
  rcoordinates :: "Coordinate list"

record RouteFeature =
  rtype :: string
  rproperties :: "(string \<times> json) list"
  rgeometry :: route_geometry

record ferryData =
  jetties :: "JettyFeature list"
  routes :: "RouteFeature list"

record filteredData = ferryData +
  isSample :: bool

section \<open>Data scoper\<close>

text \<open>
  \<open>truthy\<close> is JavaScript's conversion of a value to a boolean and \<open>Object_values\<close> is
  \<^verbatim>\<open>Object.values\<close> on a value that is neither \<^verbatim>\<open>null\<close> nor \<^verbatim>\<open>undefined\<close>.
  \<open>valueMatches\<close> is the test applied to each value,
  \<^verbatim>\<open>typeof value === 'string' && keywords.some(kw => value.toLowerCase().includes(kw))\<close>,
  \<open>jettyMatches\<close> and \<open>routeMatches\<close> are the two filter callbacks, and
  \<open>operator_member name route\<close> is \<^verbatim>\<open>route.properties.operator?.name\<close>, with \<open>None\<close> for
  \<^verbatim>\<open>undefined\<close>. The cap \<^verbatim>\<open>MAX_ITEMS\<close> is 15 in the baseline component and 8 in the
  location-aware one.
\<close>

fun truthy :: "json \<Rightarrow> bool" where
  "truthy JNull = False"
| "truthy (JBool b) = b"
| "truthy (JNumber n) = (n \<noteq> 0)"
| "truthy (JString s) = (s \<noteq> [])"
| "truthy (JArray xs) = True"
| "truthy (JObject kvs) = True"

fun Object_values :: "json \<Rightarrow> json list" where
  "Object_values (JObject kvs) = map snd kvs"
| "Object_values (JArray xs) = xs"
| "Object_values (JString s) = map (\<lambda>c. JString [c]) s"
| "Object_values v = []"

definition valueMatches :: "string list \<Rightarrow> json \<Rightarrow> bool" where
  "valueMatches keywords v =
     (case v of
        JString s \<Rightarrow> list_ex (\<lambda>kw. includes_str (toLowerCase s) kw) keywords
      | _ \<Rightarrow> False)"

definition jettyMatches :: "string list \<Rightarrow> JettyFeature \<Rightarrow> bool" where
  "jettyMatches keywords jetty =
     list_ex (valueMatches keywords) (Object_values (JObject (properties jetty)))"

definition operator_member :: "string \<Rightarrow> RouteFeature \<Rightarrow> json option" where
  "operator_member name route =
     (case map_of (rproperties route) ''operator'' of
        Some (JObject kvs) \<Rightarrow> map_of kvs name
      | _ \<Rightarrow> None)"

definition detailsMatch :: "string list \<Rightarrow> json option \<Rightarrow> bool" where
  "detailsMatch keywords details =
     (case details of
        None \<Rightarrow> False
      | Some d \<Rightarrow> truthy d \<and> list_ex (valueMatches keywords) (Object_values d))"

definition routeMatches :: "string list \<Rightarrow> RouteFeature \<Rightarrow> bool" where
  "routeMatches keywords route =
     (if list_ex (valueMatches keywords) (Object_values (JObject (rproperties route))) then True
      else let publicDetails = operator_member ''Public'' route;
               privateDetails = operator_member ''Private'' route
           in if detailsMatch keywords publicDetails then True
              else if detailsMatch keywords privateDetails then True
              else False)"

definition filterDataByKeywords_with :: "nat \<Rightarrow> ferryData \<Rightarrow> string list \<Rightarrow> filteredData" where
  "filterDataByKeywords_with MAX_ITEMS data keywords =
     (if length keywords = 0 then
        \<lparr>jetties = take 3 (jetties data), routes = take 3 (routes data), isSample = True\<rparr>
      else
        let filteredJetties = filter (jettyMatches keywords) (jetties data);
            filteredRoutes = filter (routeMatches keywords) (routes data)
        in \<lparr>jetties = take MAX_ITEMS filteredJetties, routes = take MAX_ITEMS filteredRoutes,
            isSample = False\<rparr>)"

definition filterDataByKeywords :: "ferryData \<Rightarrow> string list \<Rightarrow> filteredData" where
  "filterDataByKeywords data keywords = filterDataByKeywords_with 15 data keywords"

definition filterDataByKeywords_loc :: "ferryData \<Rightarrow> string list \<Rightarrow> filteredData" where
  "filterDataByKeywords_loc data keywords = filterDataByKeywords_with 8 data keywords"

section \<open>Query classifier\<close>

definition nearbyKeywords :: "string list" where
  "nearbyKeywords = [''nearest'', ''near'', ''close'', ''closest'', ''around'', ''nearby'']"

definition jettyKeywords :: "string list" where
  "jettyKeywords = [''jetty'', ''jetties'', ''terminal'', ''stop'', ''station'']"

definition isNearestJettyQuery :: "string \<Rightarrow> bool" where
  "isNearestJettyQuery text =
     (let textLower = toLowerCase text
      in list_ex (\<lambda>nk. includes_str textLower nk) nearbyKeywords
         \<and> list_ex (\<lambda>jk. includes_str textLower jk) jettyKeywords)"

section \<open>Proximity ranking\<close>

text \<open>
  \<^verbatim>\<open>calculateDistance\<close> is double-precision arithmetic over \<^verbatim>\<open>Math.sin\<close>, \<^verbatim>\<open>Math.cos\<close>,
  \<^verbatim>\<open>Math.sqrt\<close> and \<^verbatim>\<open>Math.atan2\<close>, which is not modelled: the ranking takes the
  distance function as a parameter. What it returns is a \<open>number\<close>, a real or \<^verbatim>\<open>NaN\<close>: by
  rounding, the intermediate value \<^verbatim>\<open>a\<close> of \<^verbatim>\<open>calculateDistance\<close> exceeds 1 for some
  pairs of antipodal points, and \<^verbatim>\<open>Math.sqrt(1 - a)\<close> and the distance are then \<^verbatim>\<open>NaN\<close>.

  \<open>minus_number\<close> is the subtraction of the comparator
  \<^verbatim>\<open>(a, b) => a.distance - b.distance\<close>, \<open>positive v\<close> is \<^verbatim>\<open>v > 0\<close> (false for \<^verbatim>\<open>NaN\<close>, which
  \<^verbatim>\<open>sort\<close> reads as 0 when a comparator returns it) and \<open>less_eq_number\<close> is \<^verbatim>\<open><=\<close>.
  \<^verbatim>\<open>Array.prototype.sort\<close> is stable, and with a consistent comparator its result is
  determined. \<open>Array_sort\<close> is the insertion sort that takes the elements from the last to
  the first and puts each one before the first element that it does not exceed. When a
  distance is \<^verbatim>\<open>NaN\<close> the comparator is not consistent and the order of the result is left
  to the JavaScript engine: the order of \<open>Array_sort\<close> is then one of the possible orders
  only, and the ranking theorem is about distances without \<^verbatim>\<open>NaN\<close>.

  \<open>withDistance\<close> is the callback of \<^verbatim>\<open>jetties.map\<close>: the object spread
  \<^verbatim>\<open>{ ...jetty, distance }\<close> is the extension of the record by the field \<open>distance\<close>.
  The count is \<open>None\<close> when the caller omits it.
\<close>

datatype number = Num real | NaN

fun minus_number :: "number \<Rightarrow> number \<Rightarrow> number" where
  "minus_number (Num a) (Num b) = Num (a - b)"
| "minus_number a b = NaN"

fun positive :: "number \<Rightarrow> bool" where
  "positive (Num v) = (0 < v)"
| "positive NaN = False"

fun less_eq_number :: "number \<Rightarrow> number \<Rightarrow> bool" where
  "less_eq_number (Num a) (Num b) = (a \<le> b)"
| "less_eq_number a b = False"

fun insert_sorted :: "('a \<Rightarrow> 'a \<Rightarrow> number) \<Rightarrow> 'a \<Rightarrow> 'a list \<Rightarrow> 'a list" where
  "insert_sorted comparefn x [] = [x]"
| "insert_sorted comparefn x (y # ys) =
     (if positive (comparefn x y) then y # insert_sorted comparefn x ys else x # y # ys)"

definition Array_sort :: "('a \<Rightarrow> 'a \<Rightarrow> number) \<Rightarrow> 'a list \<Rightarrow> 'a list" where
  "Array_sort comparefn xs = foldr (insert_sorted comparefn) xs []"

record UserLocation =
  latitude :: real
  longitude :: real

record JettyWithDistance = JettyFeature +
  distance :: number

definition withDistance ::
  "(real \<Rightarrow> real \<Rightarrow> real \<Rightarrow> real \<Rightarrow> number) \<Rightarrow> UserLocation \<Rightarrow> JettyFeature \<Rightarrow> JettyWithDistance" where
  "withDistance calculateDistance userLocation jetty =
     (let jettyLat = fst (snd (coordinates (geometry jetty)));
          jettyLon = fst (coordinates (geometry jetty));
          d = calculateDistance (latitude userLocation) (longitude userLocation) jettyLat jettyLon
      in JettyFeature.extend jetty (JettyWithDistance.fields d))"

definition findNearestJetties ::
  "(real \<Rightarrow> real \<Rightarrow> real \<Rightarrow> real \<Rightarrow> number) \<Rightarrow> UserLocation \<Rightarrow> JettyFeature list \<Rightarrow> nat option
     \<Rightarrow> JettyWithDistance list" where
  "findNearestJetties calculateDistance userLocation jettyList count_n =
     (let jettiesWithDistance = map (withDistance calculateDistance userLocation) jettyList
      in take (case count_n of None \<Rightarrow> 3 | Some n \<Rightarrow> n)
           (Array_sort (\<lambda>a b. minus_number (distance a) (distance b)) jettiesWithDistance))"

text \<open>
  What \<^verbatim>\<open>handleNearestJettyQuery\<close> returns (the notices it adds to the transcript are left
  out): \<open>granted\<close> is the outcome of the permission request, which is made only when no
  location is held yet.
\<close>

definition handleNearestJettyQuery ::
  "(real \<Rightarrow> real \<Rightarrow> real \<Rightarrow> real \<Rightarrow> number) \<Rightarrow> bool \<Rightarrow> UserLocation option \<Rightarrow> bool
     \<Rightarrow> ferryData option \<Rightarrow> JettyWithDistance list option" where
  "handleNearestJettyQuery calculateDistance locationPermissionGranted userLocation granted ferryData =
     (let hasLocation = (locationPermissionGranted \<and> userLocation \<noteq> None)
      in if \<not> hasLocation \<and> \<not> granted then None
         else (case (ferryData, userLocation) of
                 (Some d, Some u) \<Rightarrow> Some (findNearestJetties calculateDistance u (jetties d) (Some 5))
               | _ \<Rightarrow> None))"

text \<open>The real that a number other than \<^verbatim>\<open>NaN\<close> stands for, for the proofs about the order.\<close>

definition value_of :: "number \<Rightarrow> real" where
  "value_of v = (case v of Num r \<Rightarrow> r | NaN \<Rightarrow> 0)"

section \<open>Markdown-subset renderer\<close>

text \<open>
  The two regular expressions are \<^verbatim>\<open>/\[([^\]]+)\]\(([^)]+)\)/g\<close> for links and
  \<^verbatim>\<open>/\*\*([^\*]+)\*\*/g\<close> for bold text. \<open>match_link s\<close> and \<open>match_bold s\<close> match
  them at the start of \<open>s\<close> and return the first captured group, the second one where
  the expression has one, and the length of the match.
  A negated class followed by the character it excludes can only match the whole run of
  other characters, so there is one way to match at a position. \<open>search\<close> finds the
  leftmost match in a suffix that starts at index \<open>i\<close>, and \<open>exec r s lastIndex\<close> is
  \<^verbatim>\<open>regex.exec(s)\<close> with the regular expression's position at \<open>lastIndex\<close>: the index of
  the match, its groups and its length. \<open>substring s i j\<close> is \<^verbatim>\<open>s.substring(i, j)\<close> for
  \<open>i \<le> j\<close>.
\<close>

datatype SegmentType = text_seg | bold_seg | link_seg

record TextSegment =
  seg_type :: SegmentType
  content :: string
  url :: "string option"

datatype regex = LINK_REGEX | BOLD_REGEX

definition match_link :: "string \<Rightarrow> (string \<times> string option \<times> nat) option" where
  "match_link s =
     (case s of
        c # r \<Rightarrow>
          if c = CHR ''['' then
            (let label = takeWhile (\<lambda>d. d \<noteq> CHR '']'') r in
             if label = [] then None
             else (case dropWhile (\<lambda>d. d \<noteq> CHR '']'') r of
                     c1 # c2 # r2 \<Rightarrow>
                       if c2 = CHR ''('' then
                         (let target = takeWhile (\<lambda>d. d \<noteq> CHR '')'') r2 in
                          if target = [] then None
                          else (case dropWhile (\<lambda>d. d \<noteq> CHR '')'') r2 of
                                  c3 # _ \<Rightarrow> Some (label, Some target, length label + length target + 4)
                                | [] \<Rightarrow> None))
                       else None
                   | _ \<Rightarrow> None))
          else None
      | [] \<Rightarrow> None)"

definition match_bold :: "string \<Rightarrow> (string \<times> string option \<times> nat) option" where
  "match_bold s =
     (case s of
        c1 # c2 # r \<Rightarrow>
          if c1 = CHR ''*'' \<and> c2 = CHR ''*'' then
            (let body = takeWhile (\<lambda>d. d \<noteq> CHR ''*'') r in
             if body = [] then None
             else (case dropWhile (\<lambda>d. d \<noteq> CHR ''*'') r of
                     c3 # c4 # _ \<Rightarrow> if c4 = CHR ''*'' then Some (body, None, length body + 4) else None
                   | _ \<Rightarrow> None))
          else None
      | _ \<Rightarrow> None)"

fun match_at :: "regex \<Rightarrow> string \<Rightarrow> (string \<times> string option \<times> nat) option" where
  "match_at LINK_REGEX s = match_link s"
| "match_at BOLD_REGEX s = match_bold s"

fun search :: "regex \<Rightarrow> nat \<Rightarrow> string \<Rightarrow> (nat \<times> string \<times> string option \<times> nat) option" where
  "search r i [] = None"
| "search r i (c # cs) =
     (case match_at r (c # cs) of
        Some m \<Rightarrow> Some (i, m)
      | None \<Rightarrow> search r (Suc i) cs)"

definition exec :: "regex \<Rightarrow> string \<Rightarrow> nat \<Rightarrow> (nat \<times> string \<times> string option \<times> nat) option" where
  "exec r s lastIndex = search r lastIndex (drop lastIndex s)"

definition substring :: "string \<Rightarrow> nat \<Rightarrow> nat \<Rightarrow> string" where
  "substring s i j = take (j - i) (drop i s)"

definition segment_of :: "regex \<Rightarrow> string \<Rightarrow> string option \<Rightarrow> TextSegment" where
  "segment_of r group1 group2 =
     (case r of
        LINK_REGEX \<Rightarrow> \<lparr>seg_type = link_seg, content = group1, url = group2\<rparr>
      | BOLD_REGEX \<Rightarrow> \<lparr>seg_type = bold_seg, content = group1, url = None\<rparr>)"

text \<open>
  A match is never empty and never starts before the position of the search, so the loop
  of \<^verbatim>\<open>parseMarkdown\<close> moves forward. \<open>scan r s lastIndex\<close> is the \<^verbatim>\<open>while\<close> loop on one
  plain segment with content \<open>s\<close>, together with the push of the remaining text after it;
  \<open>pass r\<close> is one \<^verbatim>\<open>segments.forEach\<close>.
\<close>

lemma match_at_length: "match_at r s = Some (g1, g2, n) \<Longrightarrow> 0 < n"
  by (cases r) (auto simp: match_link_def match_bold_def Let_def split: list.splits if_splits)

lemma search_index: "search r i s = Some (j, g1, g2, n) \<Longrightarrow> i \<le> j \<and> 0 < n"
proof (induction s arbitrary: i)
  case Nil
  then show ?case by simp
next
  case (Cons c cs)
  show ?case
  proof (cases "match_at r (c # cs)")
    case None
    with Cons.prems have "search r (Suc i) cs = Some (j, g1, g2, n)" by simp
    from Cons.IH [OF this] show ?thesis by simp
  next
    case (Some m)
    with Cons.prems match_at_length [of r "c # cs" g1 g2 n] show ?thesis
      by auto
  qed
qed

lemma search_Nil_drop: "length s \<le> i \<Longrightarrow> exec r s i = None"
  by (simp add: exec_def)

lemma exec_progress:
  assumes "exec r s lastIndex = Some (index, g1, g2, n)"
  shows "length s - (index + n) < length s - lastIndex"
proof -
  from assms have "lastIndex \<le> index \<and> 0 < n" using search_index by (simp add: exec_def)
  moreover have "lastIndex < length s"
    using assms search_Nil_drop [of s lastIndex r] by (cases "lastIndex < length s") auto
  ultimately show ?thesis by arith
qed

function scan :: "regex \<Rightarrow> string \<Rightarrow> nat \<Rightarrow> TextSegment list" where
  "scan r s lastIndex =
     (case exec r s lastIndex of
        None \<Rightarrow>
          (if lastIndex < length s
           then [\<lparr>seg_type = text_seg, content = drop lastIndex s, url = None\<rparr>] else [])
      | Some (index, group1, group2, n) \<Rightarrow>
          (if index > lastIndex
           then [\<lparr>seg_type = text_seg, content = substring s lastIndex index, url = None\<rparr>] else [])
          @ segment_of r group1 group2 # scan r s (index + n))"
  by pat_completeness auto
termination
  apply (relation "measure (\<lambda>(r, s, lastIndex). length s - lastIndex)")
   apply simp
  apply (clarsimp simp: exec_progress)
  done

definition pass :: "regex \<Rightarrow> TextSegment list \<Rightarrow> TextSegment list" where
  "pass r segments =
     concat (map (\<lambda>seg. if seg_type seg \<noteq> text_seg then [seg] else scan r (content seg) 0) segments)"

definition parseMarkdown :: "string \<Rightarrow> TextSegment list" where
  "parseMarkdown text =
     (let segments = [\<lparr>seg_type = text_seg, content = text, url = None\<rparr>];
          segments = pass LINK_REGEX segments;
          newSegments = pass BOLD_REGEX segments
      in filter (\<lambda>s. trim (content s) \<noteq> [] \<or> seg_type s \<noteq> text_seg) newSegments)"

section \<open>Assistant orchestrator\<close>

text \<open>
  The send operation of the baseline component, as a function on the state of the
  component. What comes from outside is the \<open>environment\<close>: the clock when the message
  is sent (\<open>now\<close>) and when the answer is handled (\<open>later\<close>), and the outcome of the
  request to the generation service, which either fails with an exception (\<open>Rejected\<close> and
  its message) or yields the parsed JSON document. The prompt sent to the service is not
  modelled: the service's answer is taken as it comes. A thrown \<^verbatim>\<open>Error\<close> is its message,
  \<open>Inl\<close> in the result of \<open>handle_response\<close>. An absent string and the empty string are
  both falsy: \<open>nonempty\<close> maps them to \<open>None\<close>, and \<open>or_default v d\<close> is \<^verbatim>\<open>v || d\<close> on an
  optional string. The emoji at the end of the failure message is written as its four
  UTF-8 bytes.
\<close>

record Message =
  id_msg :: string
  text_msg :: string
  isUser :: bool
  timestamp :: nat

record api_error =
  message :: "string option"

record candidate =
  content_text :: "string option"
  finishReason :: "string option"

record api_response =
  error :: "api_error option"
  candidates :: "candidate list"

datatype fetch_result = Rejected string | Resolved api_response

record environment =
  now :: nat
  later :: nat
  fetch :: fetch_result

record chat_state =
  messages :: "Message list"
  inputText :: string
  loading :: bool
  ferryData :: "ferryData option"

fun toString :: "nat \<Rightarrow> string" where
  "toString n = (if n < 10 then [char_of (48 + n)] else toString (n div 10) @ [char_of (48 + n mod 10)])"

definition nonempty :: "string option \<Rightarrow> string option" where
  "nonempty v = (case v of Some s \<Rightarrow> if s = [] then None else Some s | None \<Rightarrow> None)"

definition or_default :: "string option \<Rightarrow> string \<Rightarrow> string" where
  "or_default v d = (case nonempty v of Some s \<Rightarrow> s | None \<Rightarrow> d)"

definition folded_hands :: string where
  "folded_hands = [CHR 0xF0, CHR 0x9F, CHR 0x99, CHR 0x8F]"

definition handle_response :: "api_response \<Rightarrow> string + string" where
  "handle_response data =
     (case error data of
        Some e \<Rightarrow>
          (let errorMessage = or_default (message e) ''An unknown API error occurred.''
           in Inl (''Gemini API Error: '' @ errorMessage))
      | None \<Rightarrow>
          (let first = (case candidates data of c # _ \<Rightarrow> Some c | [] \<Rightarrow> None);
               aiResponseText = (case first of Some c \<Rightarrow> content_text c | None \<Rightarrow> None);
               finish = (case first of Some c \<Rightarrow> finishReason c | None \<Rightarrow> None)
           in case nonempty aiResponseText of
                Some aiText \<Rightarrow> Inr aiText
              | None \<Rightarrow>
                  if finish = Some ''SAFETY'' then Inl ''AI response was blocked due to safety settings.''
                  else Inl (''Invalid or incomplete response from AI. Finish Reason: ''
                            @ or_default finish ''Unknown'' @ ''.'')))"

definition sendMessage :: "environment \<Rightarrow> chat_state \<Rightarrow> chat_state" where
  "sendMessage env s =
     (if trim (inputText s) = [] \<or> loading s \<or> ferryData s = None then s
      else
        let userMessage = \<lparr>id_msg = toString (now env), text_msg = inputText s, isUser = True,
                             timestamp = now env\<rparr>;
            s1 = s\<lparr>messages := messages s @ [userMessage], inputText := [], loading := True\<rparr>;
            outcome = (case fetch env of Rejected m \<Rightarrow> Inl m | Resolved data \<Rightarrow> handle_response data);
            s2 = (case outcome of
                    Inr aiResponseText \<Rightarrow>
                      s1\<lparr>messages := messages s1 @
                         [\<lparr>id_msg = toString (later env + 1), text_msg = aiResponseText,
                           isUser = False, timestamp = later env\<rparr>]\<rparr>
                  | Inl error_message \<Rightarrow>
                      s1\<lparr>messages := messages s1 @
                         [\<lparr>id_msg = toString (later env + 1),
                           text_msg = ''Sorry, I can't answer right now. Error: ''
                             @ or_default (Some error_message) ''Unknown error.''
                             @ '' '' @ folded_hands,
                           isUser = False, timestamp = later env\<rparr>]\<rparr>)
        in s2\<lparr>loading := False\<rparr>)"

section \<open>Sample data\<close>

text \<open>
  A small dataset and a stand-in distance function, for the examples below. The second
  dataset has a jetty at the antipode of the device, (6.3866, 3.4221) for the device at
  (-6.3866, -176.5779): there \<^verbatim>\<open>calculateDistance\<close> computes \<^verbatim>\<open>a = 1.0000000000000002\<close> and
  returns \<^verbatim>\<open>NaN\<close>, and so does the stand-in \<open>antipode_distance\<close> at the antipode of the
  device.
\<close>

definition sample_jetty :: "string \<Rightarrow> real \<Rightarrow> real \<Rightarrow> JettyFeature" where
  "sample_jetty name lon lat =
     \<lparr>ftype = ''Feature'',
      properties = [(''name'', JString name), (''LGA'', JString ''Ikorodu''), (''status'', JString ''Operational'')],
      geometry = \<lparr>gtype = ''Point'', coordinates = (lon, lat, 0)\<rparr>\<rparr>"

definition sample_route :: RouteFeature where
  "sample_route =
     \<lparr>rtype = ''Feature'',
      rproperties = [(''route_id'', JNumber 1), (''origin'', JString ''Ikorodu''),
        (''destination'', JString ''Falomo''),
        (''operator'', JObject [(''Public'', JObject [(''boat_types'', JString ''Ferry'')])])],
      rgeometry = \<lparr>rgtype = ''LineString'', rcoordinates = [(3, 6, 0), (4, 6, 0)]\<rparr>\<rparr>"

definition sample_data :: ferryData where
  "sample_data =
     \<lparr>jetties = [sample_jetty ''Ikorodu Terminal'' 3 6, sample_jetty ''Ebute Ero'' 1 1,
                 sample_jetty ''Falomo'' 2 2, sample_jetty ''Apapa'' 1 1, sample_jetty ''CMS'' 0 0],
      routes = [sample_route]\<rparr>"

definition grid_distance :: "real \<Rightarrow> real \<Rightarrow> real \<Rightarrow> real \<Rightarrow> number" where
  "grid_distance lat1 lon1 lat2 lon2 = Num (\<bar>lat2 - lat1\<bar> + \<bar>lon2 - lon1\<bar>)"

definition antipode_distance :: "real \<Rightarrow> real \<Rightarrow> real \<Rightarrow> real \<Rightarrow> number" where
  "antipode_distance lat1 lon1 lat2 lon2 =
     (if lat2 = - lat1 \<and> \<bar>lon2 - lon1\<bar> = 180 then NaN else grid_distance lat1 lon1 lat2 lon2)"

definition antipode_device :: UserLocation where
  "antipode_device = \<lparr>latitude = - 6.3866, longitude = - 176.5779\<rparr>"

definition antipode_jetties :: "JettyFeature list" where
  "antipode_jetties =
     [sample_jetty ''Antipode'' 3.4221 6.3866, sample_jetty ''Far'' (- 176.5779) (- 6.3366),
      sample_jetty ''Near'' (- 176.5779) (- 6.3666)]"

section \<open>Properties of the text operations\<close>

subsection \<open>Characters\<close>

lemma code_char_of: "code (char_of n) = n mod 256"
  by (simp add: code_def)

lemma isSpace_toLowerChar: "isSpace (toLowerChar c) = isSpace c"
  by (auto simp: isSpace_def toLowerChar_def isUpper_def code_char_of)

lemma isUpper_toLowerChar: "\<not> isUpper (toLowerChar c)"
  by (auto simp: toLowerChar_def isUpper_def code_char_of)

lemma toLowerChar_id: "\<not> isUpper c \<Longrightarrow> toLowerChar c = c"
  by (simp add: toLowerChar_def)

lemma toLowerChar_idem: "toLowerChar (toLowerChar c) = toLowerChar c"
  by (simp add: toLowerChar_id isUpper_toLowerChar)

lemma alnum_not_space: "isLower c \<or> isDigit c \<Longrightarrow> \<not> isSpace c"
  by (auto simp: isLower_def isDigit_def isSpace_def)

lemma alnum_not_upper: "isLower c \<or> isDigit c \<Longrightarrow> \<not> isUpper c"
  by (auto simp: isLower_def isDigit_def isUpper_def)

lemma toUpperChar_fixed: "(c = toUpperChar c) = (\<not> isLower c)"
proof (cases "isLower c")
  case True
  then have "code (toUpperChar c) = code c - 32"
    by (auto simp: toUpperChar_def code_char_of isLower_def)
  with True show ?thesis by (auto simp: isLower_def)
next
  case False
  then show ?thesis by (simp add: toUpperChar_def)
qed

lemma toLowerCase_idem: "toLowerCase (toLowerCase w) = toLowerCase w"
  by (simp add: toLowerCase_def toLowerChar_idem)

lemma toLowerCase_id: "\<forall>c\<in>set w. \<not> isUpper c \<Longrightarrow> toLowerCase w = w"
  by (simp add: toLowerCase_def toLowerChar_id map_idI)

lemma strip_id: "\<forall>c\<in>set w. isLower c \<or> isDigit c \<Longrightarrow> strip w = w"
  by (simp add: strip_def)

subsection \<open>Insertion-ordered sets\<close>

lemma set_set_add_all: "set (set_add_all seen xs) = set seen \<union> set xs"
  by (induction xs arbitrary: seen) auto

lemma distinct_set_add_all: "distinct seen \<Longrightarrow> distinct (set_add_all seen xs)"
  by (induction xs arbitrary: seen) auto

lemma set_add_all_append: "set_add_all seen (xs @ ys) = set_add_all (set_add_all seen xs) ys"
  by (induction xs arbitrary: seen) auto

lemma prefix_set_add_all: "prefix seen (set_add_all seen xs)"
proof (induction xs arbitrary: seen)
  case Nil
  show ?case by simp
next
  case (Cons x xs)
  have "prefix seen (if x \<in> set seen then seen else seen @ [x])" by simp
  then show ?case using Cons.IH prefix_order.trans by fastforce
qed

lemma set_add_all_distinct: "distinct xs \<Longrightarrow> set xs \<inter> set seen = {} \<Longrightarrow> set_add_all seen xs = seen @ xs"
  by (induction xs arbitrary: seen) auto

lemma set_add_all_seen: "set xs \<subseteq> set seen \<Longrightarrow> set_add_all seen xs = seen"
  by (induction xs arbitrary: seen) auto

lemma set_from_Set: "set (from_Set xs) = set xs"
  by (simp add: from_Set_def set_set_add_all)

lemma distinct_from_Set: "distinct (from_Set xs)"
  by (simp add: from_Set_def distinct_set_add_all)

lemma from_Set_distinct: "distinct xs \<Longrightarrow> from_Set xs = xs"
  by (simp add: from_Set_def set_add_all_distinct)

lemma from_Set_append_prefix: "prefix (from_Set xs) (from_Set (xs @ ys))"
  by (simp add: from_Set_def set_add_all_append prefix_set_add_all)

text \<open>An entry of the second list that survives the cap leaves room for the whole first list.\<close>

lemma take_from_Set_append:
  assumes "k \<in> set (take n (from_Set (xs @ ys)))" and "k \<notin> set xs"
  shows "set xs \<subseteq> set (take n (from_Set (xs @ ys)))"
proof -
  obtain zs where z: "from_Set (xs @ ys) = from_Set xs @ zs"
    using from_Set_append_prefix [of xs ys] by (auto simp: prefix_def)
  have "\<not> n \<le> length (from_Set xs)"
  proof
    assume "n \<le> length (from_Set xs)"
    then have "take n (from_Set (xs @ ys)) = take n (from_Set xs)" by (simp add: z)
    then have "k \<in> set (from_Set xs)" using assms(1) by (auto dest: in_set_takeD)
    then show False using assms(2) by (simp add: set_from_Set)
  qed
  then have "take n (from_Set (xs @ ys)) = from_Set xs @ take (n - length (from_Set xs)) zs"
    by (simp add: z)
  then show ?thesis by (simp add: set_from_Set)
qed

subsection \<open>Splitting and joining\<close>

lemma split_from_no_space:
  "w \<in> set (split_from sep cur s) \<Longrightarrow> \<forall>c\<in>set cur. \<not> isSpace c \<Longrightarrow> \<forall>c\<in>set w. \<not> isSpace c"
proof (induction sep cur s rule: split_from.induct)
  case (1 sep cur)
  then show ?case by simp
next
  case (2 sep cur c cs)
  show ?case
  proof (cases "isSpace c")
    case True
    note sp = this
    show ?thesis
    proof (cases sep)
      case True
      with sp "2.prems"(1) have "w \<in> set (split_from True cur cs)" by simp
      then show ?thesis using "2.IH"(1) [OF sp True] "2.prems"(2) by blast
    next
      case False
      with sp "2.prems"(1) have "w = cur \<or> w \<in> set (split_from True [] cs)" by simp
      then show ?thesis using "2.IH"(2) [OF sp False] "2.prems"(2) by fastforce
    qed
  next
    case False
    with "2.prems"(1) have "w \<in> set (split_from False (cur @ [c]) cs)" by simp
    moreover have "\<forall>d\<in>set (cur @ [c]). \<not> isSpace d" using False "2.prems"(2) by simp
    ultimately show ?thesis using "2.IH"(3) [OF False] by blast
  qed
qed

lemma split_ws_no_space: "w \<in> set (split_ws s) \<Longrightarrow> c \<in> set w \<Longrightarrow> \<not> isSpace c"
  using split_from_no_space [of w False "[]" s] by (simp add: split_ws_def)

lemma split_from_map:
  "split_from sep (map toLowerChar cur) (map toLowerChar s) = map (map toLowerChar) (split_from sep cur s)"
  by (induction sep cur s rule: split_from.induct) (simp_all add: isSpace_toLowerChar)

lemma split_ws_toLowerCase: "split_ws (toLowerCase s) = map toLowerCase (split_ws s)"
  using split_from_map [of False "[]" s] by (simp add: split_ws_def toLowerCase_def)

lemma split_from_word:
  "\<forall>c\<in>set w. \<not> isSpace c \<Longrightarrow> w \<noteq> [] \<Longrightarrow> split_from sep cur (w @ s) = split_from False (cur @ w) s"
proof (induction w arbitrary: sep cur)
  case Nil
  then show ?case by simp
next
  case (Cons a w)
  show ?case
  proof (cases "w = []")
    case True
    with Cons.prems show ?thesis by simp
  next
    case False
    with Cons show ?thesis by simp
  qed
qed

lemma join_Cons: "join sep (w # ws) = w @ (if ws = [] then [] else sep @ join sep ws)"
  by (cases ws) simp_all

lemma split_from_join:
  assumes "\<forall>w\<in>set (v # ws). w \<noteq> [] \<and> (\<forall>c\<in>set w. \<not> isSpace c)"
  shows "split_from sep [] (join '' '' (v # ws)) = v # ws"
  using assms
proof (induction ws arbitrary: v sep)
  case Nil
  then show ?case using split_from_word [of v sep "[]" "[]"] by simp
next
  case (Cons u ws)
  have "split_from sep [] (join '' '' (v # u # ws)) = split_from False v ('' '' @ join '' '' (u # ws))"
    using Cons.prems split_from_word [of v sep "[]" "'' '' @ join '' '' (u # ws)"] by simp
  also have "\<dots> = v # split_from True [] (join '' '' (u # ws))"
    by (simp add: isSpace_def code_def)
  also have "\<dots> = v # u # ws"
    using Cons.IH [of u True] Cons.prems by simp
  finally show ?case .
qed

lemma split_ws_join:
  "ws \<noteq> [] \<Longrightarrow> \<forall>w\<in>set ws. w \<noteq> [] \<and> (\<forall>c\<in>set w. \<not> isSpace c) \<Longrightarrow> split_ws (join '' '' ws) = ws"
  using split_from_join [of "hd ws" "tl ws" False] by (cases ws) (simp_all add: split_ws_def)

lemma toLowerCase_join:
  "toLowerCase (join sep ws) = join (toLowerCase sep) (map toLowerCase ws)"
  by (induction sep ws rule: join.induct) (simp_all add: toLowerCase_def)

subsection \<open>Substrings\<close>

lemma includes_str_sublist: "includes_str s t = sublist t s"
  by (induction s) (auto simp: sublist_Cons_right)

lemma sublist_middle: "sublist m (a @ m @ b)"
  unfolding sublist_def by blast

section \<open>Properties of the keyword extractor\<close>

subsection \<open>Which tokens the filter keeps\<close>

lemma isRadixDigit_10: "isRadixDigit 10 c = isDigit c"
  by (auto simp: isRadixDigit_def digitValue_def isDigit_def isLower_def isUpper_def)

lemma isRadixDigit_16: "isRadixDigit 16 c = isHexDigit c"
  by (auto simp: isRadixDigit_def digitValue_def isHexDigit_def isDigit_def isLower_def isUpper_def)

lemma alnum_not_sign: "isLower c \<or> isDigit c \<Longrightarrow> c \<noteq> CHR ''-'' \<and> c \<noteq> CHR ''+'' \<and> c \<noteq> CHR ''X''"
  by (auto simp: isLower_def isDigit_def code_def)

lemma parseInt_alnum:
  assumes "\<forall>c\<in>set w. isLower c \<or> isDigit c"
  shows "isNaN (parseInt w) = (\<not> leading_integer w)"
proof (cases w)
  case Nil
  then show ?thesis by (simp add: parseInt_def isNaN_def leading_integer_def)
next
  case (Cons a r)
  with assms have a: "\<not> isSpace a" "a \<noteq> CHR ''-''" "a \<noteq> CHR ''+''"
    using alnum_not_space [of a] alnum_not_sign [of a] by auto
  show ?thesis
  proof (cases r)
    case Nil
    with Cons a show ?thesis
      by (simp add: parseInt_def isNaN_def leading_integer_def isRadixDigit_10)
  next
    case (Cons b r')
    with \<open>w = a # r\<close> assms have b: "b \<noteq> CHR ''X''" using alnum_not_sign [of b] by auto
    show ?thesis
    proof (cases "a = CHR ''0'' \<and> b = CHR ''x''")
      case True
      with Cons \<open>w = a # r\<close> a show ?thesis
        by (cases r') (simp_all add: parseInt_def isNaN_def leading_integer_def isRadixDigit_16 isSpace_def code_def)
    next
      case False
      with Cons \<open>w = a # r\<close> a b show ?thesis
        by (auto simp: parseInt_def isNaN_def leading_integer_def isRadixDigit_10)
    qed
  qed
qed

lemma words_of_alnum: "w \<in> set (words_of text) \<Longrightarrow> (\<forall>c\<in>set w. isLower c \<or> isDigit c) \<and> 2 < length w"
  by (auto simp: words_of_def strip_def)

lemma purely_numeric_leading: "purely_numeric w \<Longrightarrow> leading_integer w"
  by (cases w rule: list.exhaust; cases "tl w")
     (auto simp: purely_numeric_def leading_integer_def isDigit_def isHexDigit_def code_def)

lemma leading_integer_digit: "leading_integer w \<Longrightarrow> \<exists>a r. w = a # r \<and> isDigit a"
  by (cases w) (auto simp: leading_integer_def isDigit_def code_def split: if_splits)

lemma leading_integer_iff:
  "leading_integer w \<longleftrightarrow>
     (\<exists>a r. w = a # r \<and> isDigit a)
     \<and> (prefix ''0x'' w \<longrightarrow> (\<exists>d r. w = ''0x'' @ d # r \<and> isHexDigit d))"
proof (cases "prefix ''0x'' w")
  case True
  then obtain r where r: "w = ''0x'' @ r" by (auto simp: prefix_def)
  have "isDigit CHR ''0''" by (simp add: isDigit_def code_def)
  with r show ?thesis by (cases r) (simp_all add: leading_integer_def)
next
  case False
  then show ?thesis by (cases w) (auto simp: leading_integer_def)
qed

text \<open>
  Claim C1, as the code has it. A token of \<open>words_of text\<close> (lowercased, stripped of
  everything but a-z and 0-9, at least 3 characters long) is kept by the filter of
  \<^verbatim>\<open>getKeywords\<close> exactly when it is in the vocabulary or \<^verbatim>\<open>parseInt\<close> finds no
  integer at its start. A token starts with an integer exactly when it begins with a
  decimal digit and, where it begins with \<^verbatim>\<open>0x\<close>, a hexadecimal digit follows the
  \<^verbatim>\<open>0x\<close>. A purely numeric token starts with an integer. This holds for either vocabulary.
\<close>

theorem foundKeywords_retains:
  assumes "w \<in> set (words_of text)"
  shows "(w \<in> set (foundKeywords terms text) \<longleftrightarrow> w \<in> set terms \<or> \<not> leading_integer w)
       \<and> (purely_numeric w \<longrightarrow> leading_integer w)
       \<and> (leading_integer w \<longleftrightarrow>
            (\<exists>a r. w = a # r \<and> isDigit a)
            \<and> (prefix ''0x'' w \<longrightarrow> (\<exists>d r. w = ''0x'' @ d # r \<and> isHexDigit d)))"
  using assms parseInt_alnum [of w] words_of_alnum [of w "text"]
    purely_numeric_leading [of w] leading_integer_iff [of w]
  by (auto simp: foundKeywords_def)

text \<open>
  Three tokens of the text \<^verbatim>\<open>Fare 2024 0xg1\<close>: \<^verbatim>\<open>fare\<close> is kept, \<^verbatim>\<open>2024\<close> is dropped, and
  \<^verbatim>\<open>0xg1\<close>, which begins with a digit, is kept, since no hexadecimal digit follows its
  \<^verbatim>\<open>0x\<close>.
\<close>

theorem foundKeywords_retains_witness:
  "''fare'' \<in> set (words_of ''Fare 2024 0xg1'') \<and> ''fare'' \<in> set (foundKeywords specificTerms ''Fare 2024 0xg1'')
   \<and> ''2024'' \<in> set (words_of ''Fare 2024 0xg1'') \<and> ''2024'' \<notin> set (foundKeywords specificTerms ''Fare 2024 0xg1'')
   \<and> ''0xg1'' \<in> set (words_of ''Fare 2024 0xg1'') \<and> ''0xg1'' \<in> set (foundKeywords specificTerms ''Fare 2024 0xg1'')"
proof -
  have f: "''fare'' \<in> set (words_of ''Fare 2024 0xg1'')" by code_simp
  have n: "''2024'' \<in> set (words_of ''Fare 2024 0xg1'')" by code_simp
  have x: "''0xg1'' \<in> set (words_of ''Fare 2024 0xg1'')" by code_simp
  have "''fare'' \<in> set specificTerms" by code_simp
  with foundKeywords_retains [OF f, of specificTerms]
  have 1: "''fare'' \<in> set (foundKeywords specificTerms ''Fare 2024 0xg1'')" by blast
  have "''2024'' \<notin> set specificTerms" "purely_numeric ''2024''" by code_simp+
  with foundKeywords_retains [OF n, of specificTerms]
  have 2: "''2024'' \<notin> set (foundKeywords specificTerms ''Fare 2024 0xg1'')" by blast
  have "\<not> leading_integer ''0xg1''" by code_simp
  with foundKeywords_retains [OF x, of specificTerms]
  have 3: "''0xg1'' \<in> set (foundKeywords specificTerms ''Fare 2024 0xg1'')" by blast
  from f n x 1 2 3 show ?thesis by blast
qed

text \<open>
  Not every token that is not purely numeric is kept. The token \<^verbatim>\<open>12ab\<close> of the text
  \<^verbatim>\<open>12-ab\<close> is at least 3 characters long, not purely numeric and not in the vocabulary,
  and the filter drops it, since \<^verbatim>\<open>parseInt("12ab")\<close> is 12. The second pass adds the
  original token \<^verbatim>\<open>12-ab\<close>, whose first character is its own upper case, and nothing else.
\<close>

theorem foundKeywords_counterexample:
  "''12ab'' \<in> set (words_of ''12-ab'') \<and> 2 < length ''12ab'' \<and> \<not> purely_numeric ''12ab''
   \<and> ''12ab'' \<notin> set specificTerms \<and> ''12ab'' \<notin> set (foundKeywords specificTerms ''12-ab'')
   \<and> ''12ab'' \<notin> set (foundKeywords specificTerms_loc ''12-ab'')
   \<and> getKeywords ''12-ab'' = [''12-ab''] \<and> getKeywords_loc ''12-ab'' = [''12-ab'']"
  by code_simp

subsection \<open>Extraction from the extracted keywords\<close>

lemma foundKeywords_shape: "k \<in> set (foundKeywords terms s) \<Longrightarrow> keyword_shape k"
proof -
  assume "k \<in> set (foundKeywords terms s)"
  then have "k \<in> set (words_of s)" by (simp add: foundKeywords_def)
  then have a: "\<forall>c\<in>set k. isLower c \<or> isDigit c" and l: "2 < length k"
    using words_of_alnum by blast+
  from a have "\<forall>c\<in>set k. \<not> isSpace c" "\<forall>c\<in>set k. \<not> isUpper c"
    using alnum_not_space alnum_not_upper by blast+
  with l show ?thesis by (auto simp: keyword_shape_def toLowerCase_id)
qed

lemma capitalized_shape: "k \<in> set (capitalized s) \<Longrightarrow> keyword_shape k"
proof -
  assume "k \<in> set (capitalized s)"
  then obtain w where w: "w \<in> set (split_ws s)" "capital w" "k = toLowerCase w"
    by (auto simp: capitalized_def)
  from w(1) have "\<forall>c\<in>set w. \<not> isSpace c" using split_ws_no_space by blast
  then have "\<forall>c\<in>set k. \<not> isSpace c" by (simp add: w(3) toLowerCase_def isSpace_toLowerChar)
  moreover from w(2) have "k \<noteq> []" by (auto simp: capital_def w(3) toLowerCase_def)
  ultimately show ?thesis by (simp add: keyword_shape_def w(3) toLowerCase_idem)
qed

lemma getKeywords_shape: "k \<in> set (getKeywords_with terms s) \<Longrightarrow> keyword_shape k"
proof -
  assume "k \<in> set (getKeywords_with terms s)"
  then have "k \<in> set (foundKeywords terms s) \<or> k \<in> set (capitalized s)"
    by (auto simp: getKeywords_with_def set_from_Set dest: in_set_takeD)
  then show ?thesis using foundKeywords_shape capitalized_shape by blast
qed

text \<open>The two passes over the keywords joined by spaces.\<close>

lemma join_keywords:
  assumes "K \<noteq> []" and "\<forall>k\<in>set K. keyword_shape k"
  shows "split_ws (join '' '' K) = K" and "split_ws (toLowerCase (join '' '' K)) = K"
proof -
  show 1: "split_ws (join '' '' K) = K"
    using assms by (intro split_ws_join) (auto simp: keyword_shape_def)
  have "map toLowerCase K = K" using assms(2) by (simp add: keyword_shape_def map_idI)
  then show "split_ws (toLowerCase (join '' '' K)) = K"
    by (simp add: split_ws_toLowerCase 1)
qed

lemma getKeywords_join:
  assumes "K \<noteq> []" and "\<forall>k\<in>set K. keyword_shape k"
  shows "getKeywords_with terms (join '' '' K) =
    take 10 (from_Set (filter (\<lambda>w. w \<in> set terms \<or> isNaN (parseInt w)) (filter (\<lambda>w. 2 < length w) (map strip K))
      @ filter capital K))"
proof -
  have "map toLowerCase (filter capital K) = filter capital K"
    using assms(2) by (intro map_idI) (simp add: keyword_shape_def)
  then show ?thesis
    by (simp add: getKeywords_with_def foundKeywords_def words_of_def capitalized_def join_keywords [OF assms])
qed

lemma getKeywords_empty: "getKeywords_with terms [] = []"
  by (simp add: getKeywords_with_def foundKeywords_def words_of_def capitalized_def split_ws_def
      toLowerCase_def strip_def capital_def from_Set_def)

text \<open>A stripped keyword that passes the filter was a keyword already.\<close>

lemma strip_keyword:
  assumes k: "k \<in> set (getKeywords_with terms s)" and l: "2 < length (strip k)"
    and f: "strip k \<in> set terms \<or> isNaN (parseInt (strip k))"
  shows "strip k \<in> set (getKeywords_with terms s)"
proof (cases "k \<in> set (foundKeywords terms s)")
  case True
  then have "k \<in> set (words_of s)" by (simp add: foundKeywords_def)
  then have "strip k = k" using words_of_alnum strip_id by blast
  with k show ?thesis by simp
next
  case False
  with k have "k \<in> set (capitalized s)"
    by (auto simp: getKeywords_with_def set_from_Set dest: in_set_takeD)
  then obtain w where w: "w \<in> set (split_ws s)" "k = toLowerCase w"
    by (auto simp: capitalized_def)
  then have "k \<in> set (split_ws (toLowerCase s))" by (simp add: split_ws_toLowerCase)
  with l f have "strip k \<in> set (foundKeywords terms s)"
    by (simp add: foundKeywords_def words_of_def)
  moreover have "set (foundKeywords terms s) \<subseteq> set (getKeywords_with terms s)"
    using take_from_Set_append [of k 10 "foundKeywords terms s" "capitalized s"] k False
    by (simp add: getKeywords_with_def)
  ultimately show ?thesis by blast
qed

lemma getKeywords_reextract_subset:
  "set (getKeywords_with terms (join '' '' (getKeywords_with terms s))) \<subseteq> set (getKeywords_with terms s)"
proof (cases "getKeywords_with terms s = []")
  case True
  then show ?thesis by (simp add: getKeywords_empty)
next
  case False
  let ?K = "getKeywords_with terms s"
  have sh: "\<forall>k\<in>set ?K. keyword_shape k" using getKeywords_shape by blast
  show ?thesis
  proof
    fix x
    assume "x \<in> set (getKeywords_with terms (join '' '' ?K))"
    then have "x \<in> set (filter (\<lambda>w. w \<in> set terms \<or> isNaN (parseInt w)) (filter (\<lambda>w. 2 < length w) (map strip ?K)))
        \<or> x \<in> set (filter capital ?K)"
      unfolding getKeywords_join [OF False sh] by (auto simp: set_from_Set dest: in_set_takeD)
    then show "x \<in> set ?K"
    proof
      assume "x \<in> set (filter (\<lambda>w. w \<in> set terms \<or> isNaN (parseInt w)) (filter (\<lambda>w. 2 < length w) (map strip ?K)))"
      then obtain k where "k \<in> set ?K" "x = strip k" "2 < length (strip k)"
        "strip k \<in> set terms \<or> isNaN (parseInt (strip k))" by auto
      then show ?thesis using strip_keyword by blast
    next
      assume "x \<in> set (filter capital ?K)"
      then show ?thesis by simp
    qed
  qed
qed

text \<open>The cap plays no role in the second extraction.\<close>

lemma getKeywords_distinct: "distinct (getKeywords_with terms s) \<and> length (getKeywords_with terms s) \<le> 10"
  by (simp add: getKeywords_with_def distinct_from_Set)

lemma take_from_Set_within:
  assumes "set xs \<subseteq> set K" and "length K \<le> n"
  shows "take n (from_Set xs) = from_Set xs"
proof -
  have "length (from_Set xs) = card (set (from_Set xs))"
    using distinct_from_Set [of xs] by (simp add: distinct_card)
  also have "\<dots> \<le> card (set K)" using assms(1) by (simp add: set_from_Set card_mono)
  also have "\<dots> \<le> length K" by (rule card_length)
  finally show ?thesis using assms(2) by simp
qed

lemma getKeywords_join_set:
  assumes "getKeywords_with terms s \<noteq> []"
  shows "x \<in> set (getKeywords_with terms (join '' '' (getKeywords_with terms s))) \<longleftrightarrow>
    (\<exists>k\<in>set (getKeywords_with terms s). x = strip k \<and> 2 < length (strip k)
        \<and> (strip k \<in> set terms \<or> isNaN (parseInt (strip k))))
    \<or> (x \<in> set (getKeywords_with terms s) \<and> capital x)"
proof -
  let ?K = "getKeywords_with terms s"
  let ?X = "filter (\<lambda>w. w \<in> set terms \<or> isNaN (parseInt w)) (filter (\<lambda>w. 2 < length w) (map strip ?K))
      @ filter capital ?K"
  have sh: "\<forall>k\<in>set ?K. keyword_shape k" using getKeywords_shape by blast
  have sub: "set ?X \<subseteq> set ?K"
  proof
    fix y
    assume "y \<in> set ?X"
    then consider k where "k \<in> set ?K" "y = strip k" "2 < length (strip k)"
        "strip k \<in> set terms \<or> isNaN (parseInt (strip k))"
      | "y \<in> set (filter capital ?K)" by auto
    then show "y \<in> set ?K"
    proof cases
      case 1
      then show ?thesis using strip_keyword by blast
    next
      case 2
      then show ?thesis by simp
    qed
  qed
  have "getKeywords_with terms (join '' '' ?K) = take 10 (from_Set ?X)"
    by (rule getKeywords_join [OF assms sh])
  also have "\<dots> = from_Set ?X"
    using sub getKeywords_distinct [of terms s] by (intro take_from_Set_within [of _ ?K]) simp_all
  finally have "set (getKeywords_with terms (join '' '' ?K)) = set ?X" by (simp add: set_from_Set)
  then show ?thesis by auto
qed

text \<open>A stripped keyword that passes the filter is a keyword of the first pass.\<close>

lemma strip_found:
  assumes k: "k \<in> set (getKeywords_with terms s)" and l: "2 < length (strip k)"
    and f: "strip k \<in> set terms \<or> isNaN (parseInt (strip k))"
  shows "strip k \<in> set (foundKeywords terms s)"
proof (cases "k \<in> set (foundKeywords terms s)")
  case True
  then have "k \<in> set (words_of s)" by (simp add: foundKeywords_def)
  then have "strip k = k" using words_of_alnum strip_id by blast
  with True show ?thesis by simp
next
  case False
  with k have "k \<in> set (capitalized s)"
    by (auto simp: getKeywords_with_def set_from_Set dest: in_set_takeD)
  then obtain w where w: "w \<in> set (split_ws s)" "k = toLowerCase w"
    by (auto simp: capitalized_def)
  then have "k \<in> set (split_ws (toLowerCase s))" by (simp add: split_ws_toLowerCase)
  with l f show ?thesis by (simp add: foundKeywords_def words_of_def)
qed

lemma found_keyword_passes:
  assumes "k \<in> set (foundKeywords terms s)"
  shows "strip k = k \<and> 2 < length k \<and> (k \<in> set terms \<or> isNaN (parseInt k))"
proof -
  from assms have w: "k \<in> set (words_of s)" and f: "k \<in> set terms \<or> isNaN (parseInt k)"
    by (simp_all add: foundKeywords_def)
  from w have "strip k = k" "2 < length k" using words_of_alnum strip_id by blast+
  with f show ?thesis by simp
qed

text \<open>
  When the second extraction gives all keywords back: each of them is a keyword of the
  first pass or starts with a character that is its own upper case.
\<close>

lemma getKeywords_reextract_set_iff:
  "set (getKeywords_with terms (join '' '' (getKeywords_with terms s))) = set (getKeywords_with terms s)
   \<longleftrightarrow> (\<forall>k\<in>set (getKeywords_with terms s). capital k \<or> k \<in> set (foundKeywords terms s))"
proof (cases "getKeywords_with terms s = []")
  case True
  then show ?thesis by (simp add: getKeywords_empty)
next
  case False
  let ?K = "getKeywords_with terms s"
  note js = getKeywords_join_set [OF False]
  show ?thesis
  proof
    assume eq: "set (getKeywords_with terms (join '' '' ?K)) = set ?K"
    show "\<forall>k\<in>set ?K. capital k \<or> k \<in> set (foundKeywords terms s)"
    proof
      fix k
      assume "k \<in> set ?K"
      then have "k \<in> set (getKeywords_with terms (join '' '' ?K))" using eq by blast
      then consider k' where "k' \<in> set ?K" "k = strip k'" "2 < length (strip k')"
          "strip k' \<in> set terms \<or> isNaN (parseInt (strip k'))"
        | "capital k" unfolding js by blast
      then show "capital k \<or> k \<in> set (foundKeywords terms s)"
      proof cases
        case 1
        then show ?thesis using strip_found by blast
      next
        case 2
        then show ?thesis by simp
      qed
    qed
  next
    assume all: "\<forall>k\<in>set ?K. capital k \<or> k \<in> set (foundKeywords terms s)"
    have "set ?K \<subseteq> set (getKeywords_with terms (join '' '' ?K))"
    proof
      fix k
      assume k: "k \<in> set ?K"
      show "k \<in> set (getKeywords_with terms (join '' '' ?K))"
      proof (cases "capital k")
        case True
        with k show ?thesis unfolding js by blast
      next
        case False
        with all k have "k \<in> set (foundKeywords terms s)" by blast
        from found_keyword_passes [OF this]
        have "k = strip k \<and> 2 < length (strip k) \<and> (strip k \<in> set terms \<or> isNaN (parseInt (strip k)))"
          by simp
        with k show ?thesis unfolding js by blast
      qed
    qed
    with getKeywords_reextract_subset [of terms s] show
      "set (getKeywords_with terms (join '' '' ?K)) = set ?K" by blast
  qed
qed

text \<open>
  When every token of the second pass is a keyword of the first pass as well, the second
  extraction gives the same list.
\<close>

lemma getKeywords_reextract_same:
  assumes "set (capitalized s) \<subseteq> set (foundKeywords terms s)"
  shows "getKeywords_with terms (join '' '' (getKeywords_with terms s)) = getKeywords_with terms s"
proof (cases "getKeywords_with terms s = []")
  case True
  then show ?thesis by (simp add: getKeywords_empty)
next
  case False
  let ?K = "getKeywords_with terms s"
  have "from_Set (foundKeywords terms s @ capitalized s) = from_Set (foundKeywords terms s)"
    using assms by (simp add: from_Set_def set_add_all_append set_add_all_seen set_set_add_all)
  then have K: "?K = take 10 (from_Set (foundKeywords terms s))"
    by (simp add: getKeywords_with_def)
  have sh: "\<forall>k\<in>set ?K. keyword_shape k" using getKeywords_shape by blast
  have fk: "\<forall>k\<in>set ?K. k \<in> set (foundKeywords terms s)"
    unfolding K by (auto simp: set_from_Set dest!: in_set_takeD)
  then have p: "\<forall>k\<in>set ?K. strip k = k \<and> 2 < length k \<and> (k \<in> set terms \<or> isNaN (parseInt k))"
    using found_keyword_passes by blast
  have 1: "map strip ?K = ?K" using p by (intro map_idI) simp
  have 2: "filter (\<lambda>w. 2 < length w) ?K = ?K" using p by (simp add: filter_id_conv)
  have 3: "filter (\<lambda>w. w \<in> set terms \<or> isNaN (parseInt w)) ?K = ?K"
    using p by (simp add: filter_id_conv)
  have d: "distinct ?K" and l: "length ?K \<le> 10" using getKeywords_distinct by blast+
  have "from_Set (?K @ filter capital ?K) = from_Set ?K"
    by (simp add: from_Set_def set_add_all_append set_add_all_seen set_set_add_all)
  then have 4: "from_Set (?K @ filter capital ?K) = ?K" by (simp add: from_Set_distinct [OF d])
  from l have "take 10 ?K = ?K" by simp
  then show ?thesis
    unfolding getKeywords_join [OF False sh] by (simp add: 1 2 3 4)
qed

text \<open>
  Claim C3, as the code has it. Extracting keywords from the extracted keywords joined by
  spaces never yields a new keyword: the result is a subset of the keywords it was made of.
  It is the same set exactly when every extracted keyword is a keyword of the first pass
  or starts with a character that is its own upper case (a digit, a punctuation mark).
  When every token that the second pass adds is a keyword of the first pass as well, the
  result is the same list of keywords.
\<close>

theorem getKeywords_reextract:
  "set (getKeywords (join '' '' (getKeywords text))) \<subseteq> set (getKeywords text)
   \<and> set (getKeywords_loc (join '' '' (getKeywords_loc text))) \<subseteq> set (getKeywords_loc text)
   \<and> (set (getKeywords (join '' '' (getKeywords text))) = set (getKeywords text)
        \<longleftrightarrow> (\<forall>k\<in>set (getKeywords text). capital k \<or> k \<in> set (foundKeywords specificTerms text)))
   \<and> (set (getKeywords_loc (join '' '' (getKeywords_loc text))) = set (getKeywords_loc text)
        \<longleftrightarrow> (\<forall>k\<in>set (getKeywords_loc text). capital k \<or> k \<in> set (foundKeywords specificTerms_loc text)))
   \<and> (set (capitalized text) \<subseteq> set (foundKeywords specificTerms text) \<longrightarrow>
        getKeywords (join '' '' (getKeywords text)) = getKeywords text)
   \<and> (set (capitalized text) \<subseteq> set (foundKeywords specificTerms_loc text) \<longrightarrow>
        getKeywords_loc (join '' '' (getKeywords_loc text)) = getKeywords_loc text)"
  unfolding getKeywords_def getKeywords_loc_def
  using getKeywords_reextract_subset getKeywords_reextract_same getKeywords_reextract_set_iff
  by blast

text \<open>
  In the text \<^verbatim>\<open>Fare to CMS\<close> the second pass finds \<^verbatim>\<open>fare\<close> and \<^verbatim>\<open>cms\<close>, which are
  keywords of the first pass, and the keywords are extracted again unchanged.
\<close>

theorem getKeywords_reextract_witness:
  "capitalized ''Fare to CMS'' = [''fare'', ''cms'']
   \<and> set (capitalized ''Fare to CMS'') \<subseteq> set (foundKeywords specificTerms ''Fare to CMS'')
   \<and> getKeywords ''Fare to CMS'' = [''fare'', ''cms'']
   \<and> getKeywords (join '' '' (getKeywords ''Fare to CMS'')) = getKeywords ''Fare to CMS''"
proof -
  have c: "capitalized ''Fare to CMS'' = [''fare'', ''cms'']" by code_simp
  have f: "foundKeywords specificTerms ''Fare to CMS'' = [''fare'', ''cms'']" by code_simp
  have s: "set (capitalized ''Fare to CMS'') \<subseteq> set (foundKeywords specificTerms ''Fare to CMS'')"
    by (simp add: c f)
  have k: "getKeywords ''Fare to CMS'' = [''fare'', ''cms'']" by code_simp
  from getKeywords_reextract [of "''Fare to CMS''"] s
  have "getKeywords (join '' '' (getKeywords ''Fare to CMS'')) = getKeywords ''Fare to CMS''"
    by blast
  with c s k show ?thesis by blast
qed

text \<open>
  Extraction is not idempotent. The only keyword of \<^verbatim>\<open>Hi\<close> is \<^verbatim>\<open>hi\<close>, which the second
  pass found; the text \<^verbatim>\<open>hi\<close> is too short for the first pass and not capitalized for the
  second, so it has no keyword.
\<close>

theorem getKeywords_idempotent_counterexample:
  "getKeywords ''Hi'' = [''hi''] \<and> getKeywords (join '' '' (getKeywords ''Hi'')) = []
   \<and> set (getKeywords (join '' '' (getKeywords ''Hi''))) \<noteq> set (getKeywords ''Hi'')"
  by code_simp

section \<open>Properties of the data scoper\<close>

text \<open>The two filter callbacks in the words of the specification.\<close>

lemma valueMatches_iff:
  "valueMatches keywords v \<longleftrightarrow>
     (\<exists>s. v = JString s \<and> (\<exists>kw\<in>set keywords. sublist kw (toLowerCase s)))"
  by (cases v) (simp_all add: valueMatches_def list_ex_iff includes_str_sublist)

lemma jettyMatches_iff:
  "jettyMatches keywords jetty \<longleftrightarrow>
     (\<exists>v\<in>snd ` set (properties jetty).
        \<exists>s. v = JString s \<and> (\<exists>kw\<in>set keywords. sublist kw (toLowerCase s)))"
  by (simp add: jettyMatches_def list_ex_iff valueMatches_iff)

text \<open>
  Claim C5. With a keyword list that is not empty and a dataset in which no jetty and no
  route matches, both components return empty lists of jetties and routes with
  \<open>isSample = False\<close>: the result is marked as filtered, not as a sample.
\<close>

theorem filterDataByKeywords_no_match:
  assumes "keywords \<noteq> []"
    and "\<forall>jetty\<in>set (jetties data). \<not> jettyMatches keywords jetty"
    and "\<forall>route\<in>set (routes data). \<not> routeMatches keywords route"
  shows "filterDataByKeywords data keywords = \<lparr>jetties = [], routes = [], isSample = False\<rparr>
       \<and> filterDataByKeywords_loc data keywords = \<lparr>jetties = [], routes = [], isSample = False\<rparr>"
proof -
  have "filter (jettyMatches keywords) (jetties data) = []"
    using assms(2) by (simp add: filter_empty_conv)
  moreover have "filter (routeMatches keywords) (routes data) = []"
    using assms(3) by (simp add: filter_empty_conv)
  ultimately show ?thesis
    using assms(1)
    by (simp add: filterDataByKeywords_def filterDataByKeywords_loc_def filterDataByKeywords_with_def)
qed

text \<open>No record of the sample data mentions \<^verbatim>\<open>badagry\<close>.\<close>

theorem filterDataByKeywords_no_match_witness:
  "filterDataByKeywords sample_data [''badagry''] = \<lparr>jetties = [], routes = [], isSample = False\<rparr>
   \<and> filterDataByKeywords_loc sample_data [''badagry''] = \<lparr>jetties = [], routes = [], isSample = False\<rparr>"
proof -
  have k: "[''badagry''] \<noteq> []" by simp
  have j: "\<forall>jetty\<in>set (jetties sample_data). \<not> jettyMatches [''badagry''] jetty" by code_simp
  have r: "\<forall>route\<in>set (routes sample_data). \<not> routeMatches [''badagry''] route" by code_simp
  from filterDataByKeywords_no_match [OF k j r] show ?thesis .
qed

text \<open>
  Claim C6. With the empty keyword list, both components return the first 3 jetties and
  the first 3 routes of the dataset, or all of them when there are fewer: \<open>min 3 N\<close>
  jetties and \<open>min 3 M\<close> routes, with \<open>isSample = True\<close>.
\<close>

theorem filterDataByKeywords_sample:
  "filterDataByKeywords data [] =
      \<lparr>jetties = take 3 (jetties data), routes = take 3 (routes data), isSample = True\<rparr>
   \<and> filterDataByKeywords_loc data [] =
      \<lparr>jetties = take 3 (jetties data), routes = take 3 (routes data), isSample = True\<rparr>
   \<and> length (jetties (filterDataByKeywords data [])) = min 3 (length (jetties data))
   \<and> length (routes (filterDataByKeywords data [])) = min 3 (length (routes data))
   \<and> length (jetties (filterDataByKeywords_loc data [])) = min 3 (length (jetties data))
   \<and> length (routes (filterDataByKeywords_loc data [])) = min 3 (length (routes data))"
  by (simp add: filterDataByKeywords_def filterDataByKeywords_loc_def filterDataByKeywords_with_def
      min.commute)

text \<open>The sample data has five jetties and one route.\<close>

theorem filterDataByKeywords_sample_witness:
  "length (jetties (filterDataByKeywords sample_data [])) = 3
   \<and> length (routes (filterDataByKeywords sample_data [])) = 1
   \<and> isSample (filterDataByKeywords sample_data [])"
  using filterDataByKeywords_sample [of sample_data] by (simp add: sample_data_def)

section \<open>Properties of the query classifier\<close>

text \<open>
  Claim C4. The classifier answers true exactly when the lowercased text has one of the
  proximity terms as a substring and one of the jetty terms as a substring, wherever they
  stand: \<^term>\<open>sublist t s\<close> says that \<open>s = ps @ t @ ss\<close> for some \<open>ps\<close> and \<open>ss\<close>. The
  question \<^verbatim>\<open>What's the nearest jetty to me?\<close> is a proximity query, and
  \<^verbatim>\<open>What's the fare to CMS?\<close> is not.
\<close>

theorem isNearestJettyQuery_rule:
  "(isNearestJettyQuery text \<longleftrightarrow>
      (\<exists>nk\<in>set [''nearest'', ''near'', ''close'', ''closest'', ''around'', ''nearby''].
          sublist nk (toLowerCase text))
    \<and> (\<exists>jk\<in>set [''jetty'', ''jetties'', ''terminal'', ''stop'', ''station''].
          sublist jk (toLowerCase text)))
   \<and> isNearestJettyQuery ''What's the nearest jetty to me?''
   \<and> \<not> isNearestJettyQuery ''What's the fare to CMS?''"
proof (intro conjI)
  show "isNearestJettyQuery text \<longleftrightarrow>
      (\<exists>nk\<in>set [''nearest'', ''near'', ''close'', ''closest'', ''around'', ''nearby''].
          sublist nk (toLowerCase text))
    \<and> (\<exists>jk\<in>set [''jetty'', ''jetties'', ''terminal'', ''stop'', ''station''].
          sublist jk (toLowerCase text))"
    unfolding isNearestJettyQuery_def Let_def list_ex_iff includes_str_sublist
      nearbyKeywords_def jettyKeywords_def ..
  show "isNearestJettyQuery ''What's the nearest jetty to me?''" by code_simp
  show "\<not> isNearestJettyQuery ''What's the fare to CMS?''" by code_simp
qed

text \<open>The terms may stand inside longer words and in any order, in any case.\<close>

theorem isNearestJettyQuery_rule_witness:
  "isNearestJettyQuery ''Any terminals NEARBY?'' \<and> sublist ''terminal'' (toLowerCase ''Any terminals NEARBY?'')
   \<and> sublist ''near'' (toLowerCase ''Any terminals NEARBY?'')"
proof -
  have 1: "sublist ''near'' (toLowerCase ''Any terminals NEARBY?'')" by code_simp
  have 2: "sublist ''terminal'' (toLowerCase ''Any terminals NEARBY?'')" by code_simp
  from 1 2 isNearestJettyQuery_rule [of "''Any terminals NEARBY?''"]
  have "isNearestJettyQuery ''Any terminals NEARBY?''" by simp
  with 1 2 show ?thesis by simp
qed

section \<open>Properties of the proximity ranking\<close>

lemma withDistance_fields:
  "withDistance cd u j =
     \<lparr>ftype = ftype j, properties = properties j, geometry = geometry j,
      distance = cd (latitude u) (longitude u) (fst (snd (coordinates (geometry j))))
                    (fst (coordinates (geometry j)))\<rparr>"
  by (simp add: withDistance_def JettyFeature.defs JettyWithDistance.defs)

lemma truncate_withDistance: "JettyFeature.truncate (withDistance cd u j) = j"
  by (simp add: withDistance_def JettyFeature.defs JettyWithDistance.defs)

lemma distance_withDistance:
  "distance (withDistance cd u j) =
     cd (latitude u) (longitude u) (fst (snd (coordinates (geometry j)))) (fst (coordinates (geometry j)))"
  by (simp add: withDistance_fields)

text \<open>
  The sort keeps the elements. When no key is \<^verbatim>\<open>NaN\<close>, the comparator is consistent and
  the sort is the stable sort on the keys; a list with \<^verbatim>\<open>NaN\<close> in it is ascending in no
  order.
\<close>

lemma set_insert_sorted: "set (insert_sorted comparefn x ys) = insert x (set ys)"
  by (induction ys) auto

lemma length_insert_sorted: "length (insert_sorted comparefn x ys) = Suc (length ys)"
  by (induction ys) auto

lemma set_Array_sort: "set (Array_sort comparefn xs) = set xs"
  by (induction xs) (simp_all add: Array_sort_def set_insert_sorted)

lemma length_Array_sort: "length (Array_sort comparefn xs) = length xs"
  by (induction xs) (simp_all add: Array_sort_def length_insert_sorted)

lemma positive_minus: "positive (minus_number (Num a) (Num b)) = (\<not> a \<le> b)"
  by auto

lemma insert_sorted_insort_key:
  assumes "key x \<noteq> NaN" and "\<forall>y\<in>set ys. key y \<noteq> NaN"
  shows "insert_sorted (\<lambda>a b. minus_number (key a) (key b)) x ys = insort_key (\<lambda>a. value_of (key a)) x ys"
  using assms(2)
proof (induction ys)
  case Nil
  show ?case by simp
next
  case (Cons y ys)
  from assms(1) obtain a where a: "key x = Num a" by (cases "key x") auto
  from Cons.prems obtain b where b: "key y = Num b" by (cases "key y") auto
  from Cons show ?case by (simp add: a b value_of_def)
qed

lemma Array_sort_sort_key:
  "\<forall>x\<in>set xs. key x \<noteq> NaN \<Longrightarrow>
     Array_sort (\<lambda>a b. minus_number (key a) (key b)) xs = sort_key (\<lambda>a. value_of (key a)) xs"
proof (induction xs)
  case Nil
  show ?case by (simp add: Array_sort_def)
next
  case (Cons x xs)
  then have "Array_sort (\<lambda>a b. minus_number (key a) (key b)) xs = sort_key (\<lambda>a. value_of (key a)) xs"
    by simp
  moreover have "\<forall>y\<in>set (sort_key (\<lambda>a. value_of (key a)) xs). key y \<noteq> NaN"
    using Cons.prems by simp
  ultimately show ?case
    using Cons.prems insert_sorted_insort_key [of key x "sort_key (\<lambda>a. value_of (key a)) xs"]
    by (simp add: Array_sort_def)
qed

lemma less_eq_number_value: "a \<noteq> NaN \<Longrightarrow> b \<noteq> NaN \<Longrightarrow> less_eq_number a b = (value_of a \<le> value_of b)"
  by (cases a; cases b) (simp_all add: value_of_def)

lemma NaN_not_sorted:
  assumes "NaN \<in> set ds" and "2 \<le> length ds"
  shows "\<not> sorted_wrt less_eq_number ds"
proof
  assume s: "sorted_wrt less_eq_number ds"
  from assms(1) obtain i where i: "i < length ds" "ds ! i = NaN" by (auto simp: in_set_conv_nth)
  from assms(2) i(1) obtain j where j: "j < length ds" "j \<noteq> i"
    by (cases "i = 0") (auto intro: that [of 1] that [of 0])
  from s have nth: "\<And>a b. a < b \<Longrightarrow> b < length ds \<Longrightarrow> less_eq_number (ds ! a) (ds ! b)"
    by (simp add: sorted_wrt_iff_nth_less)
  show False
  proof (cases "i < j")
    case True
    from nth [OF True j(1)] i(2) show False by simp
  next
    case False
    with j(2) have "j < i" by simp
    from nth [OF this i(1)] i(2) show False by (cases "ds ! j") simp_all
  qed
qed

lemma findNearestJetties_take:
  "findNearestJetties cd u js count_n =
     take (case count_n of None \<Rightarrow> 3 | Some n \<Rightarrow> n)
       (Array_sort (\<lambda>a b. minus_number (distance a) (distance b)) (map (withDistance cd u) js))"
  by (simp add: findNearestJetties_def)

lemma length_findNearestJetties:
  "length (findNearestJetties cd u js count_n) = min (case count_n of None \<Rightarrow> 3 | Some n \<Rightarrow> n) (length js)"
  by (simp add: findNearestJetties_take length_Array_sort min.commute)

lemma set_findNearestJetties:
  "set (findNearestJetties cd u js count_n) \<subseteq> withDistance cd u ` set js"
  using set_take_subset [of _ "Array_sort (\<lambda>a b. minus_number (distance a) (distance b)) (map (withDistance cd u) js)"]
  by (simp add: findNearestJetties_take set_Array_sort)

text \<open>
  Claim C2, as the code has it. For a device location \<open>u\<close>, a list of jetties \<open>js\<close> of
  which none has the distance \<^verbatim>\<open>NaN\<close>, and a count \<open>n\<close>, the ranking returns
  \<open>min n (length js)\<close> jetties, each with its distance to \<open>u\<close>, in ascending order of
  distance. They are the nearest ones: together with some rest they are a rearrangement
  of all jetties with their distances, and no jetty of the rest is nearer than a returned
  one. Jetties at the same distance keep the order they have in \<open>js\<close>. When the caller
  omits the count, it is 3; the location-aware flow, which runs only with a known device
  location and a loaded dataset, passes 5.
\<close>

theorem findNearestJetties_ranking:
  assumes "\<forall>j\<in>set js. cd (latitude u) (longitude u) (fst (snd (coordinates (geometry j))))
                          (fst (coordinates (geometry j))) \<noteq> NaN"
  shows "length (findNearestJetties cd u js (Some n)) = min n (length js)
    \<and> sorted_wrt less_eq_number (map distance (findNearestJetties cd u js (Some n)))
    \<and> (\<exists>rest. mset (findNearestJetties cd u js (Some n) @ rest) = mset (map (withDistance cd u) js)
          \<and> (\<forall>r\<in>set (findNearestJetties cd u js (Some n)). \<forall>x\<in>set rest.
                less_eq_number (distance r) (distance x)))
    \<and> (\<forall>k. prefix (filter (\<lambda>r. distance r = k) (findNearestJetties cd u js (Some n)))
                    (filter (\<lambda>r. distance r = k) (map (withDistance cd u) js)))
    \<and> findNearestJetties cd u js None = findNearestJetties cd u js (Some 3)
    \<and> handleNearestJettyQuery cd permitted (Some u) granted (Some d) =
        (if permitted \<or> granted then Some (findNearestJetties cd u (jetties d) (Some 5)) else None)"
proof -
  let ?ws = "map (withDistance cd u) js"
  let ?key = "\<lambda>r. value_of (distance r)"
  let ?all = "sort_key ?key ?ws"
  let ?res = "findNearestJetties cd u js (Some n)"
  have fin: "\<forall>w\<in>set ?ws. distance w \<noteq> NaN"
    using assms by (simp add: distance_withDistance)
  have res: "?res = take n ?all"
    by (simp add: findNearestJetties_take Array_sort_sort_key [OF fin])
  have finall: "\<forall>w\<in>set ?all. distance w \<noteq> NaN" using fin by simp
  have s: "sorted (map ?key ?all)" by (rule sorted_sort_key)
  have 1: "length ?res = min n (length js)" by (simp add: length_findNearestJetties)
  have "sorted_wrt (\<lambda>a b. ?key a \<le> ?key b) ?all" using s by (simp add: sorted_map)
  moreover have "\<And>x y. x \<in> set ?all \<Longrightarrow> y \<in> set ?all \<Longrightarrow> ?key x \<le> ?key y
      \<Longrightarrow> less_eq_number (distance x) (distance y)"
    using finall less_eq_number_value by blast
  ultimately have sw: "sorted_wrt (\<lambda>a b. less_eq_number (distance a) (distance b)) ?all"
    by (rule sorted_wrt_mono_rel [rotated])
  then have "sorted_wrt (\<lambda>a b. less_eq_number (distance a) (distance b)) (take n ?all)"
    by (rule sorted_wrt_take)
  then have 2: "sorted_wrt less_eq_number (map distance ?res)"
    unfolding res by (simp add: sorted_wrt_map)
  have "mset (?res @ drop n ?all) = mset ?ws"
    unfolding res by simp
  moreover have "\<forall>r\<in>set ?res. \<forall>x\<in>set (drop n ?all). less_eq_number (distance r) (distance x)"
  proof -
    have "sorted_wrt (\<lambda>a b. less_eq_number (distance a) (distance b)) (take n ?all @ drop n ?all)"
      using sw by (simp only: append_take_drop_id)
    then show ?thesis unfolding res sorted_wrt_append by blast
  qed
  ultimately have 3: "\<exists>rest. mset (?res @ rest) = mset ?ws
          \<and> (\<forall>r\<in>set ?res. \<forall>x\<in>set rest. less_eq_number (distance r) (distance x))" by blast
  have 4: "\<forall>k. prefix (filter (\<lambda>r. distance r = k) ?res) (filter (\<lambda>r. distance r = k) ?ws)"
  proof
    fix k
    have a: "filter (\<lambda>r. distance r = k) ?all = filter (\<lambda>r. distance r = k) ?ws"
    proof (cases k)
      case (Num v)
      have "filter (\<lambda>r. distance r = k) ?all = filter (\<lambda>r. ?key r = v) ?all"
        using finall by (intro filter_cong) (auto simp: Num value_of_def split: number.splits)
      also have "\<dots> = filter (\<lambda>r. ?key r = v) ?ws" by (rule sort_key_stable)
      also have "\<dots> = filter (\<lambda>r. distance r = k) ?ws"
        using fin by (intro filter_cong) (auto simp: Num value_of_def split: number.splits)
      finally show ?thesis .
    next
      case NaN
      have "filter (\<lambda>r. distance r = k) ?all = []" using finall by (simp add: NaN filter_empty_conv)
      moreover have "filter (\<lambda>r. distance r = k) ?ws = []" using fin by (simp add: NaN filter_empty_conv)
      ultimately show ?thesis by simp
    qed
    have "filter (\<lambda>r. distance r = k) ?all
        = filter (\<lambda>r. distance r = k) (take n ?all) @ filter (\<lambda>r. distance r = k) (drop n ?all)"
      by (simp add: filter_append [symmetric] del: filter_append)
    with a show "prefix (filter (\<lambda>r. distance r = k) ?res) (filter (\<lambda>r. distance r = k) ?ws)"
      unfolding res by (metis prefixI)
  qed
  have 5: "findNearestJetties cd u js None = findNearestJetties cd u js (Some 3)"
    by (simp add: findNearestJetties_take)
  have 6: "handleNearestJettyQuery cd permitted (Some u) granted (Some d) =
        (if permitted \<or> granted then Some (findNearestJetties cd u (jetties d) (Some 5)) else None)"
    by (simp add: handleNearestJettyQuery_def)
  from 1 2 3 4 5 6 show ?thesis by blast
qed

text \<open>
  The three sample jetties nearest to the origin, by the stand-in distance. The two at
  distance 2 come in the order of the dataset.
\<close>

lemma sample_ranking:
  "map (\<lambda>r. (properties r, distance r))
      (findNearestJetties grid_distance \<lparr>latitude = 0, longitude = 0\<rparr> (jetties sample_data) (Some 3))
   = [(properties (sample_jetty ''CMS'' 0 0), Num 0), (properties (sample_jetty ''Ebute Ero'' 1 1), Num 2),
      (properties (sample_jetty ''Apapa'' 1 1), Num 2)]"
  by (simp add: findNearestJetties_def withDistance_def sample_data_def sample_jetty_def grid_distance_def
      Array_sort_def JettyFeature.defs JettyWithDistance.defs)

text \<open>The theorem at this ranking.\<close>

theorem findNearestJetties_ranking_witness:
  "length (findNearestJetties grid_distance \<lparr>latitude = 0, longitude = 0\<rparr> (jetties sample_data) (Some 3)) = 3
   \<and> sorted_wrt less_eq_number (map distance
        (findNearestJetties grid_distance \<lparr>latitude = 0, longitude = 0\<rparr> (jetties sample_data) (Some 3)))"
proof -
  let ?u = "\<lparr>latitude = 0, longitude = 0\<rparr>"
  have h: "\<forall>j\<in>set (jetties sample_data).
      grid_distance (latitude ?u) (longitude ?u) (fst (snd (coordinates (geometry j))))
        (fst (coordinates (geometry j))) \<noteq> NaN"
    by (simp add: grid_distance_def)
  from h findNearestJetties_ranking [where cd = grid_distance and u = ?u
      and js = "jetties sample_data" and n = 3]
  show ?thesis by (simp add: sample_data_def)
qed

text \<open>
  The ranking of the jetties of the second dataset in the model. The jetty at the
  antipode, the farthest one, comes first here; another engine may place it elsewhere.
\<close>

lemma antipode_ranking:
  "map (\<lambda>r. (properties r, distance r))
      (findNearestJetties antipode_distance antipode_device antipode_jetties (Some 5))
   = [(properties (sample_jetty ''Antipode'' 3.4221 6.3866), NaN),
      (properties (sample_jetty ''Near'' (- 176.5779) (- 6.3666)), Num 0.02),
      (properties (sample_jetty ''Far'' (- 176.5779) (- 6.3366)), Num 0.05)]"
  by (simp add: findNearestJetties_def withDistance_def antipode_jetties_def antipode_device_def
      sample_jetty_def antipode_distance_def grid_distance_def Array_sort_def
      JettyFeature.defs JettyWithDistance.defs)

text \<open>
  The count does not default to 5: without a count, the ranking of the five sample jetties
  has 3 elements. And the ranking is not sorted for every device location: with a jetty
  at the antipode of the device, one of the three distances returned is \<^verbatim>\<open>NaN\<close>, and
  they are ascending in no order.
\<close>

theorem findNearestJetties_counterexample:
  "length (jetties sample_data) = 5
   \<and> length (findNearestJetties grid_distance \<lparr>latitude = 0, longitude = 0\<rparr> (jetties sample_data) None) = 3
   \<and> length (findNearestJetties grid_distance \<lparr>latitude = 0, longitude = 0\<rparr> (jetties sample_data) None) \<noteq> 5
   \<and> length (findNearestJetties antipode_distance antipode_device antipode_jetties (Some 5)) = 3
   \<and> NaN \<in> set (map distance
         (findNearestJetties antipode_distance antipode_device antipode_jetties (Some 5)))
   \<and> \<not> sorted_wrt less_eq_number
         (map distance (findNearestJetties antipode_distance antipode_device antipode_jetties (Some 5)))"
proof -
  have d: "map distance (findNearestJetties antipode_distance antipode_device antipode_jetties (Some 5))
       = [NaN, Num 0.02, Num 0.05]"
    by (simp add: findNearestJetties_def withDistance_def antipode_jetties_def antipode_device_def
      sample_jetty_def antipode_distance_def grid_distance_def Array_sort_def
      JettyFeature.defs JettyWithDistance.defs)
  have "\<not> sorted_wrt less_eq_number [NaN, Num 0.02, Num 0.05]"
    by (rule NaN_not_sorted) simp_all
  with d show ?thesis by (simp add: length_findNearestJetties sample_data_def antipode_jetties_def)
qed

text \<open>
  Claim C10. Every element that the ranking returns comes from a jetty of the input list:
  cutting the field \<open>distance\<close> off gives that jetty back, the fields \<open>ftype\<close>,
  \<open>properties\<close> and \<open>geometry\<close> are the jetty's, and the one added field \<open>distance\<close> is
  the distance function applied to the latitude and longitude of the device and to the
  latitude (the second coordinate) and longitude (the first coordinate) of the jetty.
\<close>

theorem findNearestJetties_frame:
  "\<forall>r\<in>set (findNearestJetties cd u js count_n). \<exists>j\<in>set js.
      JettyFeature.truncate r = j
    \<and> r = \<lparr>ftype = ftype j, properties = properties j, geometry = geometry j,
           distance = cd (latitude u) (longitude u) (fst (snd (coordinates (geometry j))))
                         (fst (coordinates (geometry j)))\<rparr>"
proof
  fix r
  assume "r \<in> set (findNearestJetties cd u js count_n)"
  then obtain j where "j \<in> set js" "r = withDistance cd u j"
    using set_findNearestJetties by blast
  then show "\<exists>j\<in>set js. JettyFeature.truncate r = j
    \<and> r = \<lparr>ftype = ftype j, properties = properties j, geometry = geometry j,
           distance = cd (latitude u) (longitude u) (fst (snd (coordinates (geometry j))))
                         (fst (coordinates (geometry j)))\<rparr>"
    using truncate_withDistance withDistance_fields by blast
qed

text \<open>A ranking of one sample jetty, at the origin.\<close>

theorem findNearestJetties_frame_witness:
  "withDistance grid_distance \<lparr>latitude = 0, longitude = 0\<rparr> (sample_jetty ''CMS'' 0 0)
     \<in> set (findNearestJetties grid_distance \<lparr>latitude = 0, longitude = 0\<rparr> [sample_jetty ''CMS'' 0 0] None)
   \<and> JettyFeature.truncate (withDistance grid_distance \<lparr>latitude = 0, longitude = 0\<rparr> (sample_jetty ''CMS'' 0 0))
       = sample_jetty ''CMS'' 0 0
   \<and> distance (withDistance grid_distance \<lparr>latitude = 0, longitude = 0\<rparr> (sample_jetty ''CMS'' 0 0)) = Num 0"
proof -
  let ?u = "\<lparr>latitude = 0, longitude = 0\<rparr>"
  let ?j = "sample_jetty ''CMS'' 0 0"
  let ?w = "withDistance grid_distance ?u ?j"
  have m: "?w \<in> set (findNearestJetties grid_distance ?u [?j] None)"
    by (simp add: findNearestJetties_def Array_sort_def)
  from findNearestJetties_frame [of grid_distance ?u "[?j]" None] m
  obtain j where j: "j \<in> set [?j]" and t: "JettyFeature.truncate ?w = j"
    and w: "?w = \<lparr>ftype = ftype j, properties = properties j, geometry = geometry j,
           distance = grid_distance (latitude ?u) (longitude ?u) (fst (snd (coordinates (geometry j))))
             (fst (coordinates (geometry j)))\<rparr>"
    by blast
  from j have e: "j = ?j" by simp
  have "distance ?w = distance \<lparr>ftype = ftype j, properties = properties j, geometry = geometry j,
           distance = grid_distance (latitude ?u) (longitude ?u) (fst (snd (coordinates (geometry j))))
             (fst (coordinates (geometry j)))\<rparr>"
    using w by (rule arg_cong)
  then have "distance ?w = Num 0" by (simp add: e sample_jetty_def grid_distance_def)
  with m t e show ?thesis by blast
qed

section \<open>Properties of the markdown parser\<close>

text \<open>
  Claim C7. The text \<^verbatim>\<open>Visit **Ebute Ero** via [this link](https://x.test)\<close> is parsed
  into four segments, in this order: the plain text \<^verbatim>\<open>Visit \<close>, the bold text
  \<^verbatim>\<open>Ebute Ero\<close>, the plain text \<^verbatim>\<open> via \<close> and the link with the label \<^verbatim>\<open>this link\<close>
  and the address \<^verbatim>\<open>https://x.test\<close>.
\<close>

lemma parseMarkdown_example:
  "parseMarkdown ''Visit **Ebute Ero** via [this link](https://x.test)'' =
     [\<lparr>seg_type = text_seg, content = ''Visit '', url = None\<rparr>,
      \<lparr>seg_type = bold_seg, content = ''Ebute Ero'', url = None\<rparr>,
      \<lparr>seg_type = text_seg, content = '' via '', url = None\<rparr>,
      \<lparr>seg_type = link_seg, content = ''this link'', url = Some ''https://x.test''\<rparr>]"
  by code_simp

text \<open>The kinds of the four segments.\<close>

theorem parseMarkdown_example_witness:
  "map seg_type (parseMarkdown ''Visit **Ebute Ero** via [this link](https://x.test)'')
     = [text_seg, bold_seg, text_seg, link_seg]"
  using parseMarkdown_example by simp

section \<open>Properties of the send operation\<close>

text \<open>
  Claim C8. When a message is sent (the input is not blank, no request is in progress and
  the dataset is loaded) and the generation service answers with an error object that
  carries the message \<open>m\<close>, the transcript grows by the user's message and by one reply
  of the assistant whose text contains \<open>m\<close>, and the in-progress flag is cleared.
\<close>

theorem sendMessage_error:
  assumes "trim (inputText s) \<noteq> []" and "\<not> loading s" and "ferryData s \<noteq> None"
    and "fetch env = Resolved data" and "error data = Some e" and "message e = Some m"
  shows "\<exists>userMessage reply.
           messages (sendMessage env s) = messages s @ [userMessage, reply]
         \<and> isUser userMessage \<and> text_msg userMessage = inputText s
         \<and> \<not> isUser reply \<and> sublist m (text_msg reply)
         \<and> \<not> loading (sendMessage env s)"
proof -
  define errorMessage where "errorMessage = or_default (message e) ''An unknown API error occurred.''"
  have h: "handle_response data = Inl (''Gemini API Error: '' @ errorMessage)"
    by (simp add: handle_response_def assms(5) errorMessage_def)
  have sub: "sublist m errorMessage"
    by (cases "m = []") (simp_all add: errorMessage_def or_default_def nonempty_def assms(6))
  then obtain a b where ab: "errorMessage = a @ m @ b" by (auto simp: sublist_def)
  define reply where "reply = \<lparr>id_msg = toString (later env + 1),
      text_msg = ''Sorry, I can't answer right now. Error: '' @ (''Gemini API Error: '' @ errorMessage)
        @ '' '' @ folded_hands, isUser = False, timestamp = later env\<rparr>"
  define userMessage where "userMessage = \<lparr>id_msg = toString (now env), text_msg = inputText s,
      isUser = True, timestamp = now env\<rparr>"
  have m: "messages (sendMessage env s) = messages s @ [userMessage, reply]"
    and l: "\<not> loading (sendMessage env s)"
    using assms(1-4) by (simp_all add: sendMessage_def h reply_def userMessage_def or_default_def nonempty_def)
  have "text_msg reply = (''Sorry, I can't answer right now. Error: Gemini API Error: '' @ a) @ m @ (b @ '' '' @ folded_hands)"
    by (simp add: reply_def ab)
  then have "sublist m (text_msg reply)" using sublist_middle by metis
  with m l show ?thesis by (intro exI [of _ userMessage] exI [of _ reply]) (simp add: reply_def userMessage_def)
qed

text \<open>The answer \<^verbatim>\<open>{ error: { message: "quota exceeded" } }\<close> to the question \<^verbatim>\<open>fare to CMS?\<close>.\<close>

theorem sendMessage_error_witness:
  "sublist ''quota exceeded''
     (text_msg (last (messages (sendMessage
        \<lparr>now = 17, later = 25,
         fetch = Resolved \<lparr>error = Some \<lparr>message = Some ''quota exceeded''\<rparr>, candidates = []\<rparr>\<rparr>
        \<lparr>messages = [], inputText = ''fare to CMS?'', loading = False,
         ferryData = Some \<lparr>jetties = [], routes = []\<rparr>\<rparr>))))
   \<and> \<not> loading (sendMessage
        \<lparr>now = 17, later = 25,
         fetch = Resolved \<lparr>error = Some \<lparr>message = Some ''quota exceeded''\<rparr>, candidates = []\<rparr>\<rparr>
        \<lparr>messages = [], inputText = ''fare to CMS?'', loading = False,
         ferryData = Some \<lparr>jetties = [], routes = []\<rparr>\<rparr>)"
proof -
  let ?e = "\<lparr>message = Some ''quota exceeded''\<rparr>"
  let ?data = "\<lparr>error = Some ?e, candidates = []\<rparr>"
  let ?env = "\<lparr>now = 17, later = 25, fetch = Resolved ?data\<rparr>"
  let ?s = "\<lparr>messages = [], inputText = ''fare to CMS?'', loading = False,
             ferryData = Some \<lparr>jetties = [], routes = []\<rparr>\<rparr>"
  have g: "trim (inputText ?s) \<noteq> []" by (simp add: trim_def isSpace_def code_def)
  from sendMessage_error [of ?s ?env ?data ?e "''quota exceeded''", OF g]
  obtain u r where "messages (sendMessage ?env ?s) = [u, r]"
    and "sublist ''quota exceeded'' (text_msg r)" and "\<not> loading (sendMessage ?env ?s)"
    by auto
  then show ?thesis by simp
qed

end
